theory Spec2Isabelle
  imports Complex_Main
begin

section \<open>Permanent-magnet optimisation kernels (simsoptpp)\<close>

text \<open>
  A shallow embedding of \<^verbatim>\<open>src/simsoptpp/permanent_magnet_optimization.cpp\<close>.

  Numbers. The C++ \<^verbatim>\<open>double\<close> is modelled by \<^typ>\<open>real\<close>: every statement below
  is about the algorithms in exact arithmetic (no rounding, no overflow to infinity).
  A quotient whose divisor is zero has no real value; where the source can reach one on
  inputs the model covers (\<^verbatim>\<open>gp / pATAp\<close> in the MwPGP loop) the IEEE outcome is written
  out as a branch of its own. The C++ \<^verbatim>\<open>int\<close> counters are \<^typ>\<open>nat\<close> (they are
  never negative on the paths modelled) and \<^typ>\<open>int\<close> where a negative value can occur.
  The unqualified \<^verbatim>\<open>abs\<close> of the source is read as the absolute value of a \<^verbatim>\<open>double\<close>
  (\<^verbatim>\<open>std::abs\<close>), as its uses on tolerances intend.

  Arrays. An \<^verbatim>\<open>N x 3\<close> array of the MwPGP solver is a list of \<open>N\<close> triples; an \<^verbatim>\<open>N x 3\<close>
  array of the GPMO solvers, which the source addresses through a flat pointer, is a flat
  list of length \<open>3 N\<close> (entry \<open>(i, d)\<close> at position \<open>3 i + d\<close>). A history array
  \<^verbatim>\<open>(N, 3, H)\<close> is the list of its \<open>H\<close> snapshots.
\<close>

type_synonym vec3 = "real \<times> real \<times> real"

subsection \<open>Projection primitives\<close>

definition projection_L2_balls :: "real \<Rightarrow> real \<Rightarrow> real \<Rightarrow> real \<Rightarrow> vec3" where
  "projection_L2_balls x1 x2 x3 m_maxima =
     (let denom = max 1 (sqrt (x1 * x1 + x2 * x2 + x3 * x3) / m_maxima)
      in (x1 / denom, x2 / denom, x3 / denom))"

definition phi_MwPGP :: "real \<Rightarrow> real \<Rightarrow> real \<Rightarrow> real \<Rightarrow> real \<Rightarrow> real \<Rightarrow> real \<Rightarrow> vec3" where
  "phi_MwPGP x1 x2 x3 g1 g2 g3 m_maxima =
     (let xmag2 = x1 * x1 + x2 * x2 + x3 * x3
      in if \<bar>xmag2 - m_maxima * m_maxima\<bar> > 1 / 10 ^ 8 + 1 / 10 ^ 5 * m_maxima * m_maxima
         then (g1, g2, g3)
         else (0, 0, 0))"

definition g_reduced_gradient ::
  "real \<Rightarrow> real \<Rightarrow> real \<Rightarrow> real \<Rightarrow> real \<Rightarrow> real \<Rightarrow> real \<Rightarrow> real \<Rightarrow> vec3" where
  "g_reduced_gradient x1 x2 x3 g1 g2 g3 alpha m_maxima =
     (case projection_L2_balls (x1 - alpha * g1) (x2 - alpha * g2) (x3 - alpha * g3) m_maxima of
        (proj_L2x, proj_L2y, proj_L2z) \<Rightarrow>
          ((x1 - proj_L2x) / alpha, (x2 - proj_L2y) / alpha, (x3 - proj_L2z) / alpha))"

definition beta_tilde ::
  "real \<Rightarrow> real \<Rightarrow> real \<Rightarrow> real \<Rightarrow> real \<Rightarrow> real \<Rightarrow> real \<Rightarrow> real \<Rightarrow> vec3" where
  "beta_tilde x1 x2 x3 g1 g2 g3 alpha m_maxima =
     (let dist = x1 * x1 + x2 * x2 + x3 * x3;
          mmax2 = m_maxima * m_maxima
      in if \<bar>dist - mmax2\<bar> < 1 / 10 ^ 8 + 1 / 10 ^ 5 * mmax2
         then (let ng = (x1 * g1 + x2 * g2 + x3 * g3) / sqrt dist
               in if ng > 0 then (g1, g2, g3)
                  else g_reduced_gradient x1 x2 x3 g1 g2 g3 alpha m_maxima)
         else (0, 0, 0))"

definition g_reduced_projected_gradient ::
  "real \<Rightarrow> real \<Rightarrow> real \<Rightarrow> real \<Rightarrow> real \<Rightarrow> real \<Rightarrow> real \<Rightarrow> real \<Rightarrow> vec3" where
  "g_reduced_projected_gradient x1 x2 x3 g1 g2 g3 alpha m_maxima =
     (case phi_MwPGP x1 x2 x3 g1 g2 g3 m_maxima of (psum1, psum2, psum3) \<Rightarrow>
      case beta_tilde x1 x2 x3 g1 g2 g3 alpha m_maxima of (bsum1, bsum2, bsum3) \<Rightarrow>
        (psum1 + bsum1, psum2 + bsum2, psum3 + bsum3))"

definition find_max_alphaf ::
  "real \<Rightarrow> real \<Rightarrow> real \<Rightarrow> real \<Rightarrow> real \<Rightarrow> real \<Rightarrow> real \<Rightarrow> real" where
  "find_max_alphaf x1 x2 x3 p1 p2 p3 m_maxima =
     (let tol = 1 / 10 ^ 20;
          a = p1 * p1 + p2 * p2 + p3 * p3;
          c = x1 * x1 + x2 * x2 + x3 * x3 - m_maxima * m_maxima;
          b = - 2 * (x1 * p1 + x2 * p2 + x3 * p3)
      in if a > tol then (- b + sqrt (b * b - 4 * a * c)) / (2 * a)
         else 10 ^ 100)"

subsection \<open>Dense linear algebra\<close>

text \<open>
  The solvers hand their \<^verbatim>\<open>N x 3\<close> arrays to Eigen as one row vector of length \<open>3 N\<close>
  (\<open>flat\<close>); \<open>unflat\<close> reads such a vector back as triples.
\<close>

fun flat :: "vec3 list \<Rightarrow> real list" where
  "flat [] = []"
| "flat ((a, b, c) # xs) = a # b # c # flat xs"

fun unflat :: "real list \<Rightarrow> vec3 list" where
  "unflat (a # b # c # r) = (a, b, c) # unflat r"
| "unflat _ = []"

fun dot3 :: "vec3 \<Rightarrow> vec3 \<Rightarrow> real" where
  "dot3 (u1, u2, u3) (v1, v2, v3) = u1 * v1 + u2 * v2 + u3 * v3"

definition dotl :: "real list \<Rightarrow> real list \<Rightarrow> real" where
  "dotl u v = sum_list (map2 (*) u v)"

text \<open>\<open>mat_vec A v\<close> is \<open>v A\<^sup>T\<close> (one entry per row of \<open>A\<close>); \<open>vec_mat n y A\<close> is \<open>y A\<close>,
  a vector of length \<open>n\<close>, the number of columns.\<close>

definition mat_vec :: "real list list \<Rightarrow> real list \<Rightarrow> real list" where
  "mat_vec A v = map (\<lambda>row. dotl row v) A"

fun vec_mat :: "nat \<Rightarrow> real list \<Rightarrow> real list list \<Rightarrow> real list" where
  "vec_mat n (yi # y) (row # A) = map2 (+) (map ((*) yi) row) (vec_mat n y A)"
| "vec_mat n _ _ = replicate n 0"

subsection \<open>MwPGP\<close>

text \<open>The arguments of \<^verbatim>\<open>MwPGP_algorithm\<close>, but \<^verbatim>\<open>verbose\<close>, which is passed on its own.\<close>

record MwPGP_args =
  A_obj :: "real list list"
  b_obj :: "real list"
  ATb :: "vec3 list"
  m_proxy :: "vec3 list"
  m0 :: "vec3 list"
  m_maxima :: "real list"
  alpha :: real
  nu :: real
  epsilon :: real
  reg_l0 :: real
  reg_l1 :: real
  reg_l2 :: real
  max_iter :: nat
  min_fb :: real

text \<open>The history buffers and the slot counter \<^verbatim>\<open>print_iter\<close>; MwPGP also keeps
  \<^verbatim>\<open>R2_history\<close>. A snapshot is a list of \<open>'a\<close> (triples for MwPGP, flat entries for GPMO).\<close>

record 'a history =
  print_iter :: nat
  m_history :: "'a list list"
  objective_history :: "real list"

record 'a history_R2 = "'a history" +
  R2_history :: "real list"

type_synonym MwPGP_history = "vec3 history_R2"

text \<open>
  What the model reports where the C++ has no defined real-valued behaviour:
  \<^item> \<open>EmptyMin\<close>: \<^verbatim>\<open>*std::min_element\<close> of an empty vector (\<open>N = 0\<close>);
  \<^item> \<open>NonFiniteStep\<close>: \<^verbatim>\<open>alpha_cg = gp / pATAp\<close> with \<open>pATAp = 0\<close> and \<open>gp < 0\<close> is
    \<open>-\<infinity>\<close>, which passes the test \<^verbatim>\<open>alpha_cg < alpha_f\<close> and makes the iterate non-finite;
  \<^item> \<open>ModuloByZero\<close>: \<^verbatim>\<open>k % 0\<close> or an integer division by zero in a sampling test;
  \<^item> \<open>OutOfBounds\<close>: an array access outside the allocated buffer (xtensor does not check).
\<close>

datatype fault = EmptyMin | NonFiniteStep | ModuloByZero | OutOfBounds

text \<open>\<^verbatim>\<open>eigen_v * eigen_mat.transpose() * eigen_mat + 2 * eigen_v * (reg_l2 + 1.0 / (2.0 * nu))\<close>\<close>

definition Q_times :: "MwPGP_args \<Rightarrow> vec3 list \<Rightarrow> vec3 list" where
  "Q_times a v =
     unflat (map2 (+) (vec_mat (3 * length (ATb a)) (mat_vec (A_obj a) (flat v)) (A_obj a))
                      (map (\<lambda>t. 2 * t * (reg_l2 a + 1 / (2 * nu a))) (flat v)))"

definition ATb_rs :: "MwPGP_args \<Rightarrow> vec3 list" where
  "ATb_rs a = map (\<lambda>i. case ATb a ! i of (t1, t2, t3) \<Rightarrow> case m_proxy a ! i of (w1, w2, w3) \<Rightarrow>
                    (t1 + w1 / nu a, t2 + w2 / nu a, t3 + w3 / nu a)) [0..<length (ATb a)]"

definition phi_at :: "MwPGP_args \<Rightarrow> vec3 list \<Rightarrow> vec3 list \<Rightarrow> nat \<Rightarrow> vec3" where
  "phi_at a x g i = (case x ! i of (x1, x2, x3) \<Rightarrow> case g ! i of (g1, g2, g3) \<Rightarrow>
                       phi_MwPGP x1 x2 x3 g1 g2 g3 (m_maxima a ! i))"

text \<open>\<^verbatim>\<open>g = Q x - ATb_rs\<close>, as the source recomputes it after a projection step.\<close>

definition gradient :: "MwPGP_args \<Rightarrow> vec3 list \<Rightarrow> vec3 list" where
  "gradient a x =
     (let Qx = Q_times a x; r = ATb_rs a
      in map (\<lambda>i. case Qx ! i of (q1, q2, q3) \<Rightarrow> case r ! i of (r1, r2, r3) \<Rightarrow>
                     (q1 - r1, q2 - r2, q3 - r3)) [0..<length (ATb a)])"

definition min_element :: "real \<Rightarrow> real list \<Rightarrow> real" where
  "min_element a as = fold (\<lambda>v m. if v < m then v else m) as a"

text \<open>
  The three kinds of descent step of the loop body, each giving the new iterate \<open>x\<close>,
  gradient \<open>g\<close> and direction \<open>p\<close>: the conjugate-gradient step (\<^verbatim>\<open>alpha_cg < alpha_f\<close>), the
  mixed projected-gradient step, and the projected-gradient step.
\<close>

definition conjugate_gradient_step ::
  "MwPGP_args \<Rightarrow> vec3 list \<Rightarrow> vec3 list \<Rightarrow> vec3 list \<Rightarrow> vec3 list \<Rightarrow> real \<Rightarrow> real
     \<Rightarrow> vec3 list \<times> vec3 list \<times> vec3 list" where
  "conjugate_gradient_step a x g p ATAp alpha_cg pATAp =
     (let N = length (ATb a);
          x' = map (\<lambda>i. case x ! i of (x1, x2, x3) \<Rightarrow> case p ! i of (p1, p2, p3) \<Rightarrow>
                     (x1 + - alpha_cg * p1, x2 + - alpha_cg * p2, x3 + - alpha_cg * p3)) [0..<N];
          g' = map (\<lambda>i. case g ! i of (g1, g2, g3) \<Rightarrow> case ATAp ! i of (q1, q2, q3) \<Rightarrow>
                     (g1 + - alpha_cg * q1, g2 + - alpha_cg * q2, g3 + - alpha_cg * q3)) [0..<N];
          gamma = (\<Sum>i\<leftarrow>[0..<N]. dot3 (phi_at a x' g' i) (ATAp ! i)) / pATAp
      in (x', g',
          map (\<lambda>i. case phi_at a x' g' i of (t1, t2, t3) \<Rightarrow> case p ! i of (p1, p2, p3) \<Rightarrow>
                 (t1 - gamma * p1, t2 - gamma * p2, t3 - gamma * p3)) [0..<N]))"

definition mixed_step ::
  "MwPGP_args \<Rightarrow> vec3 list \<Rightarrow> vec3 list \<Rightarrow> vec3 list \<Rightarrow> vec3 list \<Rightarrow> real
     \<Rightarrow> vec3 list \<times> vec3 list \<times> vec3 list" where
  "mixed_step a x g p ATAp alpha_f =
     (let N = length (ATb a);
          x' = map (\<lambda>i. case x ! i of (x1, x2, x3) \<Rightarrow> case p ! i of (p1, p2, p3) \<Rightarrow>
                     case g ! i of (g1, g2, g3) \<Rightarrow> case ATAp ! i of (q1, q2, q3) \<Rightarrow>
                     projection_L2_balls
                       ((x1 - alpha_f * p1) - alpha a * (g1 - alpha_f * q1))
                       ((x2 - alpha_f * p2) - alpha a * (g2 - alpha_f * q2))
                       ((x3 - alpha_f * p3) - alpha a * (g3 - alpha_f * q3)) (m_maxima a ! i)) [0..<N];
          g' = gradient a x'
      in (x', g', map (phi_at a x' g') [0..<N]))"

definition projected_gradient_step ::
  "MwPGP_args \<Rightarrow> vec3 list \<Rightarrow> vec3 list \<Rightarrow> vec3 list \<times> vec3 list \<times> vec3 list" where
  "projected_gradient_step a x g =
     (let N = length (ATb a);
          x' = map (\<lambda>i. case x ! i of (x1, x2, x3) \<Rightarrow> case g ! i of (g1, g2, g3) \<Rightarrow>
                     projection_L2_balls (x1 - alpha a * g1) (x2 - alpha a * g2)
                                         (x3 - alpha a * g3) (m_maxima a ! i)) [0..<N];
          g' = gradient a x'
      in (x', g', map (phi_at a x' g') [0..<N]))"

text \<open>
  One pass of the loop body up to the sampling test: the norms and dot products, the step
  sizes, and the choice of the step. The state is the iterate \<open>x\<close>, the gradient \<open>g\<close> and the
  direction \<open>p\<close>. \<^verbatim>\<open>alpha_cg = gp / pATAp\<close> with \<open>pATAp = 0\<close> is NaN or \<open>+\<infinity>\<close> for \<open>gp \<ge> 0\<close>, for
  which the test \<^verbatim>\<open>alpha_cg < alpha_f\<close> is false, and \<open>-\<infinity>\<close> for \<open>gp < 0\<close>.
\<close>

definition MwPGP_step ::
  "MwPGP_args \<Rightarrow> vec3 list \<times> vec3 list \<times> vec3 list \<Rightarrow> fault + vec3 list \<times> vec3 list \<times> vec3 list" where
  "MwPGP_step a s =
     (case s of (x, g, p) \<Rightarrow>
      let N = length (ATb a);
          M = m_maxima a;
          ATAp = Q_times a p;
          norm_g_alpha_p = (\<Sum>i\<leftarrow>[0..<N]. case x ! i of (x1, x2, x3) \<Rightarrow> case g ! i of (g1, g2, g3) \<Rightarrow>
               (let t = g_reduced_projected_gradient x1 x2 x3 g1 g2 g3 (alpha a) (M ! i) in dot3 t t));
          norm_phi_temp = (\<Sum>i\<leftarrow>[0..<N]. let t = phi_at a x g i in dot3 t t);
          gp = (\<Sum>i\<leftarrow>[0..<N]. dot3 (g ! i) (p ! i));
          alpha_fs = map (\<lambda>i. case x ! i of (x1, x2, x3) \<Rightarrow> case p ! i of (p1, p2, p3) \<Rightarrow>
               find_max_alphaf x1 x2 x3 p1 p2 p3 (M ! i)) [0..<N];
          pATAp = (\<Sum>i\<leftarrow>[0..<N]. dot3 (p ! i) (ATAp ! i))
      in (case alpha_fs of
           [] \<Rightarrow> Inl EmptyMin
         | af # afs \<Rightarrow>
            let alpha_f = min_element af afs
            in if norm_g_alpha_p \<le> norm_phi_temp then
                 (if pATAp = 0 then
                    (if gp < 0 then Inl NonFiniteStep else Inr (mixed_step a x g p ATAp alpha_f))
                  else
                    let alpha_cg = gp / pATAp
                    in if alpha_cg < alpha_f
                       then Inr (conjugate_gradient_step a x g p ATAp alpha_cg pATAp)
                       else Inr (mixed_step a x g p ATAp alpha_f))
               else Inr (projected_gradient_step a x g)))"

text \<open>\<^verbatim>\<open>print_MwPGP\<close>: the snapshot written to slot \<^verbatim>\<open>print_iter\<close> (the printed line is not
  modelled). The caller's slot is in range when this is applied; see \<open>MwPGP_loop\<close>.\<close>

definition print_MwPGP :: "MwPGP_args \<Rightarrow> vec3 list \<Rightarrow> MwPGP_history \<Rightarrow> MwPGP_history" where
  "print_MwPGP a x_k1 h =
     (let N = length (m_maxima a);
          N2 = (\<Sum>i\<leftarrow>[0..<N]. case x_k1 ! i of (x1, x2, x3) \<Rightarrow> case m_proxy a ! i of (w1, w2, w3) \<Rightarrow>
                  (x1 - w1) * (x1 - w1) + (x2 - w2) * (x2 - w2) + (x3 - w3) * (x3 - w3));
          L2 = (\<Sum>i\<leftarrow>[0..<N]. dot3 (x_k1 ! i) (x_k1 ! i));
          R2_temp = mat_vec (A_obj a) (flat x_k1);
          R2 = (\<Sum>i\<leftarrow>[0..<length (A_obj a)]. (R2_temp ! i - b_obj a ! i) * (R2_temp ! i - b_obj a ! i));
          R2 = 0.5 * R2;
          N2 = 0.5 * N2 / nu a;
          L2 = reg_l2 a * L2;
          cost = R2 + N2 + L2
      in h\<lparr>m_history := (m_history h)[print_iter h := map (\<lambda>i. x_k1 ! i) [0..<N]],
           objective_history := (objective_history h)[print_iter h := cost],
           R2_history := (R2_history h)[print_iter h := R2]\<rparr>)"

definition x_sum :: "vec3 list \<Rightarrow> vec3 list \<Rightarrow> nat \<Rightarrow> real" where
  "x_sum x x_prev N =
     (\<Sum>i\<leftarrow>[0..<N]. case x ! i of (x1, x2, x3) \<Rightarrow> case x_prev ! i of (y1, y2, y3) \<Rightarrow>
        \<bar>x1 - y1\<bar> + \<bar>x2 - y2\<bar> + \<bar>x3 - y3\<bar>)"

text \<open>
  The sampling block
  \<^verbatim>\<open>if (verbose && ((k % int(max_iter / 20.0) == 0) || k == 0 || k == max_iter - 1)) { ... }\<close>.
  The remainder is evaluated first, so with \<^verbatim>\<open>verbose\<close> set and \<open>max_iter < 20\<close> it divides
  by zero. The buffers have 21 slots. The result is the \<^verbatim>\<open>break\<close> flag (the sampled
  \<open>R\<^sup>2\<close> is below \<^verbatim>\<open>min_fb\<close>) and the history.
\<close>

definition MwPGP_sample ::
  "MwPGP_args \<Rightarrow> bool \<Rightarrow> nat \<Rightarrow> vec3 list \<Rightarrow> MwPGP_history \<Rightarrow> fault + (bool \<times> MwPGP_history)" where
  "MwPGP_sample a verbose k x_k1 h =
     (if verbose then
        (if max_iter a div 20 = 0 then Inl ModuloByZero
         else if k mod (max_iter a div 20) = 0 \<or> k = 0 \<or> k = max_iter a - 1 then
           (if print_iter h \<ge> 21 then Inl OutOfBounds
            else
              let h' = print_MwPGP a x_k1 h
              in if R2_history h' ! print_iter h' < min_fb a then Inr (True, h')
                 else Inr (False, h'\<lparr>print_iter := print_iter h' + 1\<rparr>))
         else Inr (False, h))
      else Inr (False, h))"

text \<open>
  The main loop \<^verbatim>\<open>for (k = 0; k < max_iter; ++k)\<close> from iteration \<open>k\<close> on: the descent
  step, the sampling block, the convergence test.
\<close>

function MwPGP_loop ::
  "MwPGP_args \<Rightarrow> bool \<Rightarrow> nat \<Rightarrow> vec3 list \<times> vec3 list \<times> vec3 list \<Rightarrow> MwPGP_history
     \<Rightarrow> fault + (vec3 list \<times> MwPGP_history)" where
  "MwPGP_loop a verbose k s h =
     (if k < max_iter a then
        (case MwPGP_step a s of
           Inl e \<Rightarrow> Inl e
         | Inr s' \<Rightarrow>
            (case MwPGP_sample a verbose k (fst s') h of
               Inl e \<Rightarrow> Inl e
             | Inr (stop, h') \<Rightarrow>
                 if stop then Inr (fst s', h')
                 else if x_sum (fst s') (fst s) (length (ATb a)) < epsilon a then Inr (fst s', h')
                 else MwPGP_loop a verbose (k + 1) s' h'))
      else Inr (fst s, h))"
  by pat_completeness auto
termination
  by (relation "measure (\<lambda>(a, verbose, k, s, h). max_iter a - k)") auto

declare MwPGP_loop.simps [simp del]

text \<open>\<^verbatim>\<open>MwPGP_algorithm\<close>: returns \<^verbatim>\<open>(objective_history, R2_history, m_history, x_k1)\<close>.\<close>

definition MwPGP_init :: "MwPGP_args \<Rightarrow> vec3 list \<times> vec3 list \<times> vec3 list" where
  "MwPGP_init a = (let g = gradient a (m0 a)
                   in (m0 a, g, map (phi_at a (m0 a) g) [0..<length (ATb a)]))"

definition MwPGP_history0 :: "MwPGP_args \<Rightarrow> MwPGP_history" where
  "MwPGP_history0 a =
     \<lparr>print_iter = 0,
      m_history = replicate 21 (replicate (length (ATb a)) (0, 0, 0)),
      objective_history = replicate 21 0,
      R2_history = replicate 21 0\<rparr>"

definition MwPGP_algorithm ::
  "MwPGP_args \<Rightarrow> bool \<Rightarrow> fault + (real list \<times> real list \<times> vec3 list list \<times> vec3 list)" where
  "MwPGP_algorithm a verbose =
     (case MwPGP_loop a verbose 0 (MwPGP_init a) (MwPGP_history0 a) of
        Inl e \<Rightarrow> Inl e
      | Inr (x_k1, h) \<Rightarrow> Inr (objective_history h, R2_history h, m_history h, x_k1))"

text \<open>The state after \<open>n\<close> passes of the loop body, the \<^verbatim>\<open>break\<close>s left aside: every
  iterate the loop can reach is one of these (\<open>MwPGP_loop_iterate\<close> below).\<close>

fun MwPGP_iterates :: "MwPGP_args \<Rightarrow> nat \<Rightarrow> fault + vec3 list \<times> vec3 list \<times> vec3 list" where
  "MwPGP_iterates a 0 = Inr (MwPGP_init a)"
| "MwPGP_iterates a (Suc n) = (case MwPGP_iterates a n of Inl e \<Rightarrow> Inl e | Inr s \<Rightarrow> MwPGP_step a s)"

text \<open>
  In the words of the specification: an iterate is feasible when every dipole lies in its
  ball, \<open>\<parallel>x\<^sub>i\<parallel> \<le> M\<^sub>i\<close>. A direction \<open>p\<close> is clear of the floor of \<^verbatim>\<open>find_max_alphaf\<close> when
  each \<open>p\<^sub>i\<close> is zero or has \<open>\<parallel>p\<^sub>i\<parallel>\<^sup>2 > 10\<^sup>-\<^sup>2\<^sup>0\<close>.
\<close>

definition feasible :: "real list \<Rightarrow> vec3 list \<Rightarrow> bool" where
  "feasible M x = list_all (\<lambda>i. case x ! i of (x1, x2, x3) \<Rightarrow> sqrt (x1 * x1 + x2 * x2 + x3 * x3) \<le> M ! i)
                           [0..<length M]"

definition clear_of_floor :: "vec3 list \<Rightarrow> bool" where
  "clear_of_floor p = (\<forall>i<length p. case p ! i of (p1, p2, p3) \<Rightarrow>
       p1 * p1 + p2 * p2 + p3 * p3 > 1 / 10 ^ 20 \<or> (p1 = 0 \<and> p2 = 0 \<and> p3 = 0))"

text \<open>The invariant of the loop used for feasibility: the three arrays have \<open>N\<close> rows, the
  iterate is feasible, and \<^verbatim>\<open>gp\<close>, the dot product of \<open>g\<close> and \<open>p\<close>, is not negative.\<close>

definition MwPGP_inv :: "MwPGP_args \<Rightarrow> vec3 list \<times> vec3 list \<times> vec3 list \<Rightarrow> bool" where
  "MwPGP_inv a s = (case s of (x, g, p) \<Rightarrow>
       length x = length (ATb a) \<and> length g = length (ATb a) \<and> length p = length (ATb a)
     \<and> feasible (m_maxima a) x
     \<and> 0 \<le> (\<Sum>i\<leftarrow>[0..<length (ATb a)]. dot3 (g ! i) (p ! i)))"

subsection \<open>Loops that can fail\<close>

text \<open>A \<^verbatim>\<open>for\<close> loop over the list of its index values whose body can hit one of the faults
  above: the first fault ends the run.\<close>

fun fold_fault :: "('a \<Rightarrow> 's \<Rightarrow> fault + 's) \<Rightarrow> 'a list \<Rightarrow> 's \<Rightarrow> fault + 's" where
  "fold_fault f [] s = Inr s"
| "fold_fault f (a # as) s = (case f a s of Inl e \<Rightarrow> Inl e | Inr s' \<Rightarrow> fold_fault f as s')"

subsection \<open>GPMO: shared pieces\<close>

text \<open>
  The GPMO solvers take \<^verbatim>\<open>A_obj\<close> with shape \<^verbatim>\<open>(3N, ngrid)\<close>: row \<open>j\<close> of the list is the
  contiguous block \<^verbatim>\<open>Aij_ptr[ngrid * j ..]\<close>, the column of the forward operator that
  belongs to slot \<open>j = 3 i + d\<close>. \<^verbatim>\<open>K\<close> and \<^verbatim>\<open>nhistory\<close> are taken non-negative (a
  negative one makes an allocation at entry throw), \<^verbatim>\<open>b_obj\<close> has length \<^verbatim>\<open>ngrid\<close>.
\<close>

definition ngrid_of :: "real list list \<Rightarrow> nat" where
  "ngrid_of A = (case A of [] \<Rightarrow> 0 | row # _ \<Rightarrow> length row)"

text \<open>\<^verbatim>\<open>std::min_element\<close> and \<^verbatim>\<open>std::max_element\<close> as indices: one scan from the left that
  moves only on a strict improvement, so the first extremum wins; on an empty range both
  return \<^verbatim>\<open>end() = begin()\<close>, index 0.\<close>

fun min_index_from :: "real list \<Rightarrow> nat \<Rightarrow> nat \<Rightarrow> real \<Rightarrow> nat" where
  "min_index_from [] i bi bv = bi"
| "min_index_from (v # vs) i bi bv =
     (if v < bv then min_index_from vs (i + 1) i v else min_index_from vs (i + 1) bi bv)"

fun min_index :: "real list \<Rightarrow> nat" where
  "min_index [] = 0"
| "min_index (v # vs) = min_index_from vs 1 0 v"

fun max_index_from :: "real list \<Rightarrow> nat \<Rightarrow> nat \<Rightarrow> real \<Rightarrow> nat" where
  "max_index_from [] i bi bv = bi"
| "max_index_from (v # vs) i bi bv =
     (if bv < v then max_index_from vs (i + 1) i v else max_index_from vs (i + 1) bi bv)"

fun max_index :: "real list \<Rightarrow> nat" where
  "max_index [] = 0"
| "max_index (v # vs) = max_index_from vs 1 0 v"

text \<open>\<open>\<parallel>r + col\<parallel>\<^sup>2\<close> and \<open>\<parallel>r - col\<parallel>\<^sup>2\<close> over the \<^verbatim>\<open>ngrid\<close> entries, the running residual
  \<^verbatim>\<open>Aij_mj_sum\<close> after adding \<open>s\<close> times a column, and \<open>\<parallel>r\<parallel>\<^sup>2\<close>.\<close>

definition R2_plus :: "real list \<Rightarrow> real list \<Rightarrow> nat \<Rightarrow> real" where
  "R2_plus r col ngrid = (\<Sum>i\<leftarrow>[0..<ngrid]. (r ! i + col ! i) * (r ! i + col ! i))"

definition R2_minus :: "real list \<Rightarrow> real list \<Rightarrow> nat \<Rightarrow> real" where
  "R2_minus r col ngrid = (\<Sum>i\<leftarrow>[0..<ngrid]. (r ! i - col ! i) * (r ! i - col ! i))"

definition add_column :: "real \<Rightarrow> real list \<Rightarrow> real list \<Rightarrow> nat \<Rightarrow> real list" where
  "add_column s r col ngrid = map (\<lambda>i. r ! i + s * col ! i) [0..<ngrid]"

definition sumsq :: "real list \<Rightarrow> nat \<Rightarrow> real" where
  "sumsq r ngrid = (\<Sum>i\<leftarrow>[0..<ngrid]. r ! i * r ! i)"

text \<open>The candidate slots of one scan:
  \<^verbatim>\<open>for (j = std::max(0, single_direction); j < N3; j += j_update)\<close>.\<close>

definition scan_js :: "int \<Rightarrow> nat \<Rightarrow> nat list" where
  "scan_js single_direction N3 =
     (if single_direction \<ge> 0
      then filter (\<lambda>j. (j - nat single_direction) mod 3 = 0) [nat single_direction..<N3]
      else [0..<N3])"

text \<open>The local variables of a GPMO solver. \<open>x_arr\<close> is the solution array \<^verbatim>\<open>x\<close>.\<close>

record GPMO_vars =
  x_arr :: "real list"
  Gamma_complement :: "bool list"
  Aij_mj_sum :: "real list"
  skj :: "nat list"
  skjj :: "nat list"
  sign_fac :: "real list"

record GPMO_state = GPMO_vars +
  R2s :: "real list"

record GPMO_bt_state = GPMO_state +
  sk_sign_fac :: "real list"
  skjj_ind :: "nat list"

record GPMO_MC_state = GPMO_vars +
  uk :: "real list"

type_synonym GPMO_result = "real list \<times> real list list \<times> real list"

definition GPMO_history0 :: "nat \<Rightarrow> nat \<Rightarrow> real history" where
  "GPMO_history0 N nhistory =
     \<lparr>print_iter = 0,
      m_history = replicate (nhistory + 1) (replicate (3 * N) 0),
      objective_history = replicate (nhistory + 1) 0\<rparr>"

text \<open>
  \<^verbatim>\<open>print_GPMO\<close>. The test \<^verbatim>\<open>(k % int(K / nhistory)) == 0 || k == 0 || k == K - 1\<close> divides
  by \<^verbatim>\<open>nhistory\<close> and then by the quotient. The buffers have \<open>nhistory + 1\<close> slots.
\<close>

definition print_GPMO ::
  "nat \<Rightarrow> nat \<Rightarrow> nat \<Rightarrow> nat \<Rightarrow> real list \<Rightarrow> real list \<Rightarrow> real history \<Rightarrow> fault + real history" where
  "print_GPMO k K ngrid nhistory x r h =
     (if nhistory = 0 \<or> K div nhistory = 0 then Inl ModuloByZero
      else if k mod (K div nhistory) = 0 \<or> k = 0 \<or> k = K - 1 then
        (if print_iter h \<ge> nhistory + 1 then Inl OutOfBounds
         else Inr (h\<lparr>objective_history := (objective_history h)[print_iter h := 0.5 * sumsq r ngrid],
                     m_history := (m_history h)[print_iter h := x],
                     print_iter := print_iter h + 1\<rparr>))
      else Inr h)"

text \<open>The scan that fills \<^verbatim>\<open>R2s\<close> for the available slots (baseline and backtracking).\<close>

definition R2_scan ::
  "real list list \<Rightarrow> real list \<Rightarrow> bool list \<Rightarrow> nat list \<Rightarrow> nat \<Rightarrow> nat \<Rightarrow> real list \<Rightarrow> real list" where
  "R2_scan A r Gamma js N3 ngrid R =
     fold (\<lambda>j R. if Gamma ! j
                  then R[j := R2_plus r (A ! j) ngrid, j + N3 := R2_minus r (A ! j) ngrid]
                  else R) js R"

text \<open>Taking dipole \<open>i\<close> out of play: all three mask entries false, its six \<^verbatim>\<open>R2s\<close> slots
  set to the sentinel \<open>10\<^sup>5\<^sup>0\<close>.\<close>

definition disable_mask :: "nat \<Rightarrow> bool list \<Rightarrow> bool list" where
  "disable_mask i Gamma = Gamma[3 * i := False, 3 * i + 1 := False, 3 * i + 2 := False]"

definition disable_R2s :: "nat \<Rightarrow> nat \<Rightarrow> real list \<Rightarrow> real list" where
  "disable_R2s i N3 R =
     R[3 * i := 10 ^ 50, N3 + 3 * i := 10 ^ 50,
       3 * i + 1 := 10 ^ 50, N3 + 3 * i + 1 := 10 ^ 50,
       3 * i + 2 := 10 ^ 50, N3 + 3 * i + 2 := 10 ^ 50]"

subsection \<open>GPMO\_baseline\<close>

text \<open>One pass of the main loop, up to the call of \<^verbatim>\<open>print_GPMO\<close>. With \<open>N = 0\<close> the
  write \<^verbatim>\<open>x(skj[k], skjj[k])\<close> is outside the (empty) array.\<close>

definition GPMO_baseline_step ::
  "real list list \<Rightarrow> int \<Rightarrow> nat \<Rightarrow> GPMO_state \<Rightarrow> fault + GPMO_state" where
  "GPMO_baseline_step A single_direction k st =
     (let N = length A div 3; N3 = 3 * N; ngrid = ngrid_of A;
          R = R2_scan A (Aij_mj_sum st) (Gamma_complement st) (scan_js single_direction N3) N3 ngrid (R2s st);
          m = min_index R;
          c = (if m \<ge> N3 then m - N3 else m);
          sign_k = (if m \<ge> N3 then - 1 else 1);
          skjj_k = c mod 3;
          skj_k = c div 3;
          skj_inds = 3 * skj_k + skjj_k
      in if N = 0 then Inl OutOfBounds
         else Inr (st\<lparr>x_arr := (x_arr st)[3 * skj_k + skjj_k := sign_k],
                      Gamma_complement := disable_mask skj_k (Gamma_complement st),
                      Aij_mj_sum := add_column sign_k (Aij_mj_sum st) (A ! skj_inds) ngrid,
                      skj := (skj st)[k := skj_k],
                      skjj := (skjj st)[k := skjj_k],
                      sign_fac := (sign_fac st)[k := sign_k],
                      R2s := disable_R2s skj_k N3 R\<rparr>))"

function GPMO_baseline_loop ::
  "real list list \<Rightarrow> nat \<Rightarrow> bool \<Rightarrow> nat \<Rightarrow> int \<Rightarrow> nat \<Rightarrow> GPMO_state \<Rightarrow> real history
     \<Rightarrow> fault + (GPMO_state \<times> real history)" where
  "GPMO_baseline_loop A K verbose nhistory single_direction k st h =
     (if k < K then
        (case GPMO_baseline_step A single_direction k st of
           Inl e \<Rightarrow> Inl e
         | Inr st' \<Rightarrow>
            if verbose then
              (case print_GPMO k K (ngrid_of A) nhistory (x_arr st') (Aij_mj_sum st') h of
                 Inl e \<Rightarrow> Inl e
               | Inr h' \<Rightarrow> GPMO_baseline_loop A K verbose nhistory single_direction (k + 1) st' h')
            else GPMO_baseline_loop A K verbose nhistory single_direction (k + 1) st' h)
      else Inr (st, h))"
  by pat_completeness auto
termination
  by (relation "measure (\<lambda>(A, K, verbose, nhistory, single_direction, k, st, h). K - k)") auto

declare GPMO_baseline_loop.simps [simp del]

definition GPMO_baseline_init :: "real list list \<Rightarrow> real list \<Rightarrow> nat \<Rightarrow> GPMO_state" where
  "GPMO_baseline_init A b K =
     (let N = length A div 3
      in \<lparr>x_arr = replicate (3 * N) 0,
          Gamma_complement = replicate (3 * N) True,
          Aij_mj_sum = map uminus b,
          skj = replicate K 0,
          skjj = replicate K 0,
          sign_fac = replicate K 0,
          R2s = replicate (6 * N) (10 ^ 50)\<rparr>)"

definition GPMO_baseline ::
  "real list list \<Rightarrow> real list \<Rightarrow> nat \<Rightarrow> bool \<Rightarrow> nat \<Rightarrow> int \<Rightarrow> fault + GPMO_result" where
  "GPMO_baseline A b K verbose nhistory single_direction =
     (case GPMO_baseline_loop A K verbose nhistory single_direction 0
             (GPMO_baseline_init A b K) (GPMO_history0 (length A div 3) nhistory) of
        Inl e \<Rightarrow> Inl e
      | Inr (st, h) \<Rightarrow> Inr (objective_history h, m_history h, x_arr st))"

subsection \<open>GPMO\_MC\<close>

text \<open>
  C++ integer division and remainder truncate towards zero; the sampling test of
  \<^verbatim>\<open>GPMO_MC\<close>, \<^verbatim>\<open>k % int(K / (nhistory - 1))\<close>, has a negative divisor when \<open>nhistory = 0\<close>.
\<close>

definition c_div :: "int \<Rightarrow> int \<Rightarrow> int" where
  "c_div m n = sgn m * sgn n * (\<bar>m\<bar> div \<bar>n\<bar>)"

definition c_mod :: "int \<Rightarrow> int \<Rightarrow> int" where
  "c_mod m n = m - n * c_div m n"

definition GPMO_MC_step :: "real list list \<Rightarrow> nat \<Rightarrow> GPMO_MC_state \<Rightarrow> fault + GPMO_MC_state" where
  "GPMO_MC_step A k st =
     (let N = length A div 3; N3 = 3 * N; ngrid = ngrid_of A;
          abs_uk = map (\<lambda>j. if Gamma_complement st ! j then \<bar>uk st ! j\<bar> else 0) [0..<N3];
          m = max_index abs_uk;
          R2 = R2_plus (Aij_mj_sum st) (A ! m) ngrid;
          R2minus = R2_minus (Aij_mj_sum st) (A ! m) ngrid;
          sign_k = (if R2minus < R2 then - 1 else 1);
          skjj_k = m mod 3;
          skj_k = m div 3;
          skj_ind = 3 * skj_k + skjj_k;
          Gamma = disable_mask skj_k (Gamma_complement st)
      in if N = 0 then Inl OutOfBounds
         else Inr (st\<lparr>x_arr := (x_arr st)[3 * skj_k + skjj_k := sign_k],
                      Gamma_complement := Gamma,
                      Aij_mj_sum := add_column sign_k (Aij_mj_sum st) (A ! skj_ind) ngrid,
                      skj := (skj st)[k := skj_k],
                      skjj := (skjj st)[k := skjj_k],
                      sign_fac := (sign_fac st)[k := sign_k],
                      uk := map (\<lambda>j. uk st ! j -
                                  (if Gamma ! j then (\<Sum>i\<leftarrow>[0..<ngrid]. A ! j ! i * A ! skj_ind ! i) else 0))
                                [0..<N3]\<rparr>))"

text \<open>
  The sampling block of \<^verbatim>\<open>GPMO_MC\<close>, written inline in the source. The coherence \<^verbatim>\<open>mu\<close> is
  only printed and its value is left out; its loop reads \<^verbatim>\<open>Aij_ptr[i]\<close> for \<open>i < 3 N\<close>, which
  is outside the buffer of \<^verbatim>\<open>A_obj\<close> when \<open>ngrid = 0\<close>.
\<close>

definition GPMO_MC_sample ::
  "nat \<Rightarrow> nat \<Rightarrow> nat \<Rightarrow> nat \<Rightarrow> real list \<Rightarrow> real list \<Rightarrow> real history \<Rightarrow> fault + real history" where
  "GPMO_MC_sample k K ngrid nhistory x r h =
     (if int nhistory - 1 = 0 \<or> c_div (int K) (int nhistory - 1) = 0 then Inl ModuloByZero
      else if c_mod (int k) (c_div (int K) (int nhistory - 1)) = 0 \<or> k = 0 \<or> k = K - 1 then
        (if print_iter h \<ge> nhistory + 1 then Inl OutOfBounds
         else if ngrid = 0 \<and> x \<noteq> [] then Inl OutOfBounds
         else Inr (h\<lparr>objective_history := (objective_history h)[print_iter h := 0.5 * sumsq r ngrid],
                     m_history := (m_history h)[print_iter h := x],
                     print_iter := print_iter h + 1\<rparr>))
      else Inr h)"

function GPMO_MC_loop ::
  "real list list \<Rightarrow> nat \<Rightarrow> bool \<Rightarrow> nat \<Rightarrow> nat \<Rightarrow> GPMO_MC_state \<Rightarrow> real history
     \<Rightarrow> fault + (GPMO_MC_state \<times> real history)" where
  "GPMO_MC_loop A K verbose nhistory k st h =
     (if k < K then
        (case GPMO_MC_step A k st of
           Inl e \<Rightarrow> Inl e
         | Inr st' \<Rightarrow>
            if verbose then
              (case GPMO_MC_sample k K (ngrid_of A) nhistory (x_arr st') (Aij_mj_sum st') h of
                 Inl e \<Rightarrow> Inl e
               | Inr h' \<Rightarrow> GPMO_MC_loop A K verbose nhistory (k + 1) st' h')
            else GPMO_MC_loop A K verbose nhistory (k + 1) st' h)
      else Inr (st, h))"
  by pat_completeness auto
termination
  by (relation "measure (\<lambda>(A, K, verbose, nhistory, k, st, h). K - k)") auto

declare GPMO_MC_loop.simps [simp del]

definition GPMO_MC_init :: "real list list \<Rightarrow> real list \<Rightarrow> real list \<Rightarrow> nat \<Rightarrow> GPMO_MC_state" where
  "GPMO_MC_init A b ATb_flat K =
     (let N = length A div 3
      in \<lparr>x_arr = replicate (3 * N) 0,
          Gamma_complement = replicate (3 * N) True,
          Aij_mj_sum = map uminus b,
          skj = replicate K 0,
          skjj = replicate K 0,
          sign_fac = replicate K 0,
          uk = ATb_flat\<rparr>)"

text \<open>
  The loop that fills \<^verbatim>\<open>Aij_l2\<close> before the main loop,
  \<^verbatim>\<open>for (j < N3) for (i < ngrid) Aij_l2[j] += sqrt(A_obj(i, j) * A_obj(i, j))\<close>, addresses
  \<^verbatim>\<open>A_obj\<close>, whose shape is \<^verbatim>\<open>(3N, ngrid)\<close>, with the grid index first: it reads entry
  \<open>i \<cdot> ngrid + j\<close> of the buffer, which has \<^verbatim>\<open>A_obj.shape(0) * ngrid\<close> entries. The sums are
  used by the printed coherence only and are left out; the reads are kept, in the order
  of the loop.
\<close>

definition Aij_l2_reads :: "real list list \<Rightarrow> nat list" where
  "Aij_l2_reads A =
     concat (map (\<lambda>j. map (\<lambda>i. i * ngrid_of A + j) [0..<ngrid_of A]) [0..<3 * (length A div 3)])"

definition Aij_l2_in_range :: "real list list \<Rightarrow> bool" where
  "Aij_l2_in_range A = list_all (\<lambda>n. n < length A * ngrid_of A) (Aij_l2_reads A)"

definition GPMO_MC ::
  "real list list \<Rightarrow> real list \<Rightarrow> real list \<Rightarrow> nat \<Rightarrow> bool \<Rightarrow> nat \<Rightarrow> fault + GPMO_result" where
  "GPMO_MC A b ATb_flat K verbose nhistory =
     (if \<not> Aij_l2_in_range A then Inl OutOfBounds
      else
        (case GPMO_MC_loop A K verbose nhistory 0
                (GPMO_MC_init A b ATb_flat K) (GPMO_history0 (length A div 3) nhistory) of
           Inl e \<Rightarrow> Inl e
         | Inr (st, h) \<Rightarrow> Inr (objective_history h, m_history h, x_arr st)))"

subsection \<open>Connectivity\<close>

text \<open>
  \<^verbatim>\<open>connectivity_matrix\<close>: for each dipole \<open>j\<close> the distances to all dipoles, then 2000
  rounds of taking the first minimum and overwriting it with \<open>10\<^sup>1\<^sup>0\<close>. The argument
  \<^verbatim>\<open>Nadjacent\<close> is not used by the source.
\<close>

definition dist_ij :: "vec3 list \<Rightarrow> nat \<Rightarrow> real list" where
  "dist_ij P j =
     map (\<lambda>i. case P ! i of (a1, a2, a3) \<Rightarrow> case P ! j of (b1, b2, b3) \<Rightarrow>
            sqrt ((a1 - b1) * (a1 - b1) + (a2 - b2) * (a2 - b2) + (a3 - b3) * (a3 - b3)))
         [0..<length P]"

fun select_mins :: "nat \<Rightarrow> real list \<Rightarrow> nat list" where
  "select_mins 0 d = []"
| "select_mins (Suc k) d = (let dist_ind = min_index d in dist_ind # select_mins k (d[dist_ind := 10 ^ 10]))"

definition connectivity_matrix :: "vec3 list \<Rightarrow> nat \<Rightarrow> nat list list" where
  "connectivity_matrix dipole_grid_xyz Nadjacent =
     map (\<lambda>j. select_mins 2000 (dist_ij dipole_grid_xyz j)) [0..<length dipole_grid_xyz]"

subsection \<open>GPMO\_multi\<close>

text \<open>
  The walk \<^verbatim>\<open>while (not Gamma_ptr[cj_ind]) { cj = Connect(j_ind, Nadjacent + cj_counter); ... }\<close>
  to the next available neighbour on axis \<open>d\<close>; it leaves the table when the row is used up.
  \<^verbatim>\<open>dipole_grid_xyz\<close> has \<open>N\<close> rows, so every entry of \<^verbatim>\<open>Connect\<close> is a dipole index.
\<close>

function next_available ::
  "bool list \<Rightarrow> nat list \<Rightarrow> nat \<Rightarrow> nat \<Rightarrow> nat \<Rightarrow> nat \<Rightarrow> fault + (nat \<times> nat)" where
  "next_available Gamma row d Nadjacent cj cj_counter =
     (if Gamma ! (3 * cj + d) then Inr (cj, cj_counter)
      else if Nadjacent + cj_counter < length row
           then next_available Gamma row d Nadjacent (row ! (Nadjacent + cj_counter)) (cj_counter + 1)
           else Inl OutOfBounds)"
  by pat_completeness auto
termination
  by (relation "measure (\<lambda>(Gamma, row, d, Nadjacent, cj, cj_counter). length row - (Nadjacent + cj_counter))") auto

declare next_available.simps [simp del]

text \<open>The aggregated \<^verbatim>\<open>R2\<close> and \<^verbatim>\<open>R2minus\<close> of candidate slot \<open>j\<close>: the sum over the
  \<^verbatim>\<open>Nadjacent\<close> neighbours the walk finds. The accumulator is \<^verbatim>\<open>(cj_counter, R2, R2minus)\<close>.\<close>

definition multi_candidate ::
  "real list list \<Rightarrow> nat list list \<Rightarrow> real list \<Rightarrow> bool list \<Rightarrow> nat \<Rightarrow> nat \<Rightarrow> nat
     \<Rightarrow> fault + (nat \<times> real \<times> real)" where
  "multi_candidate A Connect r Gamma j Nadjacent ngrid =
     fold_fault (\<lambda>jj (cj_counter, R2, R2minus).
                if j div 3 < length Connect \<and> jj < length (Connect ! (j div 3)) then
                  (case next_available Gamma (Connect ! (j div 3)) (j mod 3) Nadjacent
                          (Connect ! (j div 3) ! jj) cj_counter of
                     Inl e \<Rightarrow> Inl e
                   | Inr (cj, cnt) \<Rightarrow>
                       Inr (cnt, R2 + R2_plus r (A ! (3 * cj + j mod 3)) ngrid,
                                 R2minus + R2_minus r (A ! (3 * cj + j mod 3)) ngrid))
                else Inl OutOfBounds)
          [0..<Nadjacent] (0, 0, 0)"

definition multi_scan ::
  "real list list \<Rightarrow> nat list list \<Rightarrow> real list \<Rightarrow> bool list \<Rightarrow> nat list \<Rightarrow> nat \<Rightarrow> nat \<Rightarrow> nat
     \<Rightarrow> real list \<Rightarrow> fault + real list" where
  "multi_scan A Connect r Gamma js Nadjacent N3 ngrid R =
     fold_fault (\<lambda>j R.
                if Gamma ! j then
                  (case multi_candidate A Connect r Gamma j Nadjacent ngrid of
                     Inl e \<Rightarrow> Inl e
                   | Inr (cnt, R2, R2minus) \<Rightarrow> Inr (R[j := R2, j + N3 := R2minus]))
                else Inr R)
          js R"

text \<open>The commit: the winner's \<^verbatim>\<open>Nadjacent\<close> available neighbours (the first is the winner
  itself when it is available) all get the sign; the loop carries \<^verbatim>\<open>cj_counter\<close> and the
  state.\<close>

definition multi_place ::
  "real list list \<Rightarrow> nat list list \<Rightarrow> nat \<Rightarrow> nat \<Rightarrow> real \<Rightarrow> nat \<Rightarrow> nat \<Rightarrow> nat \<Rightarrow> GPMO_state
     \<Rightarrow> fault + (nat \<times> GPMO_state)" where
  "multi_place A Connect skj_k skjj_k sign_k Nadjacent N3 ngrid st0 =
     fold_fault (\<lambda>jj (cj_counter, st).
                if skj_k < length Connect \<and> jj < length (Connect ! skj_k) then
                  (case next_available (Gamma_complement st) (Connect ! skj_k) skjj_k Nadjacent
                          (Connect ! skj_k ! jj) cj_counter of
                     Inl e \<Rightarrow> Inl e
                   | Inr (cj, cnt) \<Rightarrow>
                       Inr (cnt, st\<lparr>x_arr := (x_arr st)[3 * cj + skjj_k := sign_k],
                                     Aij_mj_sum := add_column sign_k (Aij_mj_sum st) (A ! (3 * cj + skjj_k)) ngrid,
                                     Gamma_complement := disable_mask cj (Gamma_complement st),
                                     R2s := disable_R2s cj N3 (R2s st)\<rparr>))
                else Inl OutOfBounds)
          [0..<Nadjacent] (0, st0)"

definition GPMO_multi_step ::
  "real list list \<Rightarrow> nat list list \<Rightarrow> int \<Rightarrow> nat \<Rightarrow> nat \<Rightarrow> GPMO_state \<Rightarrow> fault + GPMO_state" where
  "GPMO_multi_step A Connect single_direction Nadjacent k st =
     (let N = length A div 3; N3 = 3 * N; ngrid = ngrid_of A
      in case multi_scan A Connect (Aij_mj_sum st) (Gamma_complement st)
                (scan_js single_direction N3) Nadjacent N3 ngrid (R2s st) of
           Inl e \<Rightarrow> Inl e
         | Inr R \<Rightarrow>
            let m = min_index R;
                c = (if m \<ge> N3 then m - N3 else m);
                sign_k = (if m \<ge> N3 then - 1 else 1);
                skjj_k = c mod 3;
                skj_k = c div 3
            in (case multi_place A Connect skj_k skjj_k sign_k Nadjacent N3 ngrid
                      (st\<lparr>skj := (skj st)[k := skj_k], skjj := (skjj st)[k := skjj_k],
                          sign_fac := (sign_fac st)[k := sign_k], R2s := R\<rparr>) of
                 Inl e \<Rightarrow> Inl e
               | Inr (cnt, st') \<Rightarrow> Inr st'))"

function GPMO_multi_loop ::
  "real list list \<Rightarrow> nat list list \<Rightarrow> nat \<Rightarrow> bool \<Rightarrow> nat \<Rightarrow> int \<Rightarrow> nat \<Rightarrow> nat \<Rightarrow> GPMO_state
     \<Rightarrow> real history \<Rightarrow> fault + (GPMO_state \<times> real history)" where
  "GPMO_multi_loop A Connect K verbose nhistory single_direction Nadjacent k st h =
     (if k < K then
        (case GPMO_multi_step A Connect single_direction Nadjacent k st of
           Inl e \<Rightarrow> Inl e
         | Inr st' \<Rightarrow>
            if verbose then
              (case print_GPMO k K (ngrid_of A) nhistory (x_arr st') (Aij_mj_sum st') h of
                 Inl e \<Rightarrow> Inl e
               | Inr h' \<Rightarrow>
                   GPMO_multi_loop A Connect K verbose nhistory single_direction Nadjacent (k + 1) st' h')
            else GPMO_multi_loop A Connect K verbose nhistory single_direction Nadjacent (k + 1) st' h)
      else Inr (st, h))"
  by pat_completeness auto
termination
  by (relation "measure (\<lambda>(A, Connect, K, verbose, nhistory, single_direction, Nadjacent, k, st, h). K - k)") auto

declare GPMO_multi_loop.simps [simp del]

definition GPMO_multi ::
  "real list list \<Rightarrow> real list \<Rightarrow> nat \<Rightarrow> bool \<Rightarrow> nat \<Rightarrow> vec3 list \<Rightarrow> int \<Rightarrow> nat \<Rightarrow> fault + GPMO_result" where
  "GPMO_multi A b K verbose nhistory dipole_grid_xyz single_direction Nadjacent =
     (case GPMO_multi_loop A (connectivity_matrix dipole_grid_xyz Nadjacent) K verbose nhistory
             single_direction Nadjacent 0
             (GPMO_baseline_init A b K) (GPMO_history0 (length A div 3) nhistory) of
        Inl e \<Rightarrow> Inl e
      | Inr (st, h) \<Rightarrow> Inr (objective_history h, m_history h, x_arr st))"

subsection \<open>GPMO\_backtracking\<close>

text \<open>
  The vectors \<^verbatim>\<open>sk_sign_fac\<close> and \<^verbatim>\<open>skjj_ind\<close> have \<open>K\<close> entries and are indexed by dipole.
  \<^verbatim>\<open>backtracking\<close> is taken non-negative.

  Removing a pair: both entries of \<^verbatim>\<open>x\<close> zeroed, both dipoles available again, the pair's
  contribution taken out of the residual, both signs cleared.
\<close>

definition enable_mask :: "nat \<Rightarrow> bool list \<Rightarrow> bool list" where
  "enable_mask i Gamma = Gamma[3 * i := True, 3 * i + 1 := True, 3 * i + 2 := True]"

definition remove_pair :: "real list list \<Rightarrow> nat \<Rightarrow> nat \<Rightarrow> nat \<Rightarrow> GPMO_bt_state \<Rightarrow> GPMO_bt_state" where
  "remove_pair A ngrid jk cj st =
     (let skj_ind1 = 3 * jk + skjj_ind st ! jk;
          skj_ind2 = 3 * cj + skjj_ind st ! cj
      in st\<lparr>x_arr := (x_arr st)[3 * jk + skjj_ind st ! jk := 0, 3 * cj + skjj_ind st ! cj := 0],
            Gamma_complement := enable_mask cj (enable_mask jk (Gamma_complement st)),
            Aij_mj_sum := map (\<lambda>i. Aij_mj_sum st ! i -
                                  (sk_sign_fac st ! jk * A ! skj_ind1 ! i + sk_sign_fac st ! cj * A ! skj_ind2 ! i))
                              [0..<ngrid],
            sk_sign_fac := (sk_sign_fac st)[jk := 0, cj := 0]\<rparr>)"

text \<open>The inner loop over the neighbours \<open>jj\<close> of a placed dipole \<open>jk\<close>, left by \<^verbatim>\<open>break\<close> at
  the first pair removed.\<close>

fun wyrm_scan ::
  "real list list \<Rightarrow> nat list list \<Rightarrow> nat \<Rightarrow> nat \<Rightarrow> nat \<Rightarrow> nat list \<Rightarrow> GPMO_bt_state \<Rightarrow> fault + GPMO_bt_state" where
  "wyrm_scan A Connect K ngrid jk [] st = Inr st"
| "wyrm_scan A Connect K ngrid jk (jj # jjs) st =
     (if jk < length Connect \<and> jj < length (Connect ! jk) then
        (let cj = Connect ! jk ! jj
         in if sk_sign_fac st ! jk \<noteq> 0 then
              (if cj \<ge> K then Inl OutOfBounds
               else if sk_sign_fac st ! jk = - sk_sign_fac st ! cj \<and> skjj_ind st ! jk = skjj_ind st ! cj
                    then Inr (remove_pair A ngrid jk cj st)
                    else wyrm_scan A Connect K ngrid jk jjs st)
            else wyrm_scan A Connect K ngrid jk jjs st)
      else Inl OutOfBounds)"

definition wyrm_pass ::
  "real list list \<Rightarrow> nat list list \<Rightarrow> nat \<Rightarrow> nat \<Rightarrow> nat \<Rightarrow> nat \<Rightarrow> GPMO_bt_state \<Rightarrow> fault + GPMO_bt_state" where
  "wyrm_pass A Connect K ngrid Nadjacent k st =
     fold_fault (\<lambda>j st'. wyrm_scan A Connect K ngrid (skj st' ! j) [0..<Nadjacent] st') [0..<k] st"

definition GPMO_backtracking_step ::
  "real list list \<Rightarrow> nat list list \<Rightarrow> nat \<Rightarrow> int \<Rightarrow> nat \<Rightarrow> nat \<Rightarrow> nat \<Rightarrow> GPMO_bt_state
     \<Rightarrow> fault + GPMO_bt_state" where
  "GPMO_backtracking_step A Connect K single_direction Nadjacent backtracking k st =
     (let N = length A div 3; N3 = 3 * N; ngrid = ngrid_of A;
          R = R2_scan A (Aij_mj_sum st) (Gamma_complement st) (scan_js single_direction N3) N3 ngrid (R2s st);
          m = min_index R;
          c = (if m \<ge> N3 then m - N3 else m);
          sign_k = (if m \<ge> N3 then - 1 else 1);
          skjj_k = c mod 3;
          skj_k = c div 3;
          skj_inds = 3 * skj_k + skjj_k
      in if N = 0 \<or> skj_k \<ge> K then Inl OutOfBounds
         else
           let st1 = st\<lparr>x_arr := (x_arr st)[3 * skj_k + skjj_k := sign_k],
                        Gamma_complement := disable_mask skj_k (Gamma_complement st),
                        Aij_mj_sum := add_column sign_k (Aij_mj_sum st) (A ! skj_inds) ngrid,
                        skj := (skj st)[k := skj_k],
                        skjj := (skjj st)[k := skjj_k],
                        sign_fac := (sign_fac st)[k := sign_k],
                        R2s := disable_R2s skj_k N3 R,
                        sk_sign_fac := (sk_sign_fac st)[skj_k := sign_k],
                        skjj_ind := (skjj_ind st)[skj_k := skjj_k]\<rparr>
           in if k > 0 then
                (if backtracking = 0 then Inl ModuloByZero
                 else if k mod backtracking = 0 then wyrm_pass A Connect K ngrid Nadjacent k st1
                 else Inr st1)
              else Inr st1)"

function GPMO_backtracking_loop ::
  "real list list \<Rightarrow> nat list list \<Rightarrow> nat \<Rightarrow> bool \<Rightarrow> nat \<Rightarrow> nat \<Rightarrow> int \<Rightarrow> nat \<Rightarrow> nat \<Rightarrow> GPMO_bt_state
     \<Rightarrow> real history \<Rightarrow> fault + (GPMO_bt_state \<times> real history)" where
  "GPMO_backtracking_loop A Connect K verbose nhistory backtracking single_direction Nadjacent k st h =
     (if k < K then
        (case GPMO_backtracking_step A Connect K single_direction Nadjacent backtracking k st of
           Inl e \<Rightarrow> Inl e
         | Inr st' \<Rightarrow>
            if verbose then
              (case print_GPMO k K (ngrid_of A) nhistory (x_arr st') (Aij_mj_sum st') h of
                 Inl e \<Rightarrow> Inl e
               | Inr h' \<Rightarrow>
                   GPMO_backtracking_loop A Connect K verbose nhistory backtracking single_direction
                     Nadjacent (k + 1) st' h')
            else GPMO_backtracking_loop A Connect K verbose nhistory backtracking single_direction
                   Nadjacent (k + 1) st' h)
      else Inr (st, h))"
  by pat_completeness auto
termination
  by (relation "measure (\<lambda>(A, Connect, K, verbose, nhistory, backtracking, single_direction, Nadjacent, k, st, h). K - k)") auto

declare GPMO_backtracking_loop.simps [simp del]

definition GPMO_backtracking_init :: "real list list \<Rightarrow> real list \<Rightarrow> nat \<Rightarrow> GPMO_bt_state" where
  "GPMO_backtracking_init A b K =
     (let N = length A div 3
      in \<lparr>x_arr = replicate (3 * N) 0,
          Gamma_complement = replicate (3 * N) True,
          Aij_mj_sum = map uminus b,
          skj = replicate K 0,
          skjj = replicate K 0,
          sign_fac = replicate K 0,
          R2s = replicate (6 * N) (10 ^ 50),
          sk_sign_fac = replicate K 0,
          skjj_ind = replicate K 0\<rparr>)"

definition GPMO_backtracking ::
  "real list list \<Rightarrow> real list \<Rightarrow> nat \<Rightarrow> bool \<Rightarrow> nat \<Rightarrow> nat \<Rightarrow> vec3 list \<Rightarrow> int \<Rightarrow> nat
     \<Rightarrow> fault + GPMO_result" where
  "GPMO_backtracking A b K verbose nhistory backtracking dipole_grid_xyz single_direction Nadjacent =
     (case GPMO_backtracking_loop A (connectivity_matrix dipole_grid_xyz Nadjacent) K verbose nhistory
             backtracking single_direction Nadjacent 0
             (GPMO_backtracking_init A b K) (GPMO_history0 (length A div 3) nhistory) of
        Inl e \<Rightarrow> Inl e
      | Inr (st, h) \<Rightarrow> Inr (objective_history h, m_history h, x_arr st))"

subsection \<open>Notions of the specification\<close>

text \<open>
  These two follow the words of the specification, not the source: the residual computed
  from scratch, \<open>A x - b\<close> (with \<open>A\<close> in the GPMO layout, one row per slot), and the
  binarity of a GPMO solution (each row of \<^verbatim>\<open>x\<close> has at most one non-zero entry, and that
  entry is \<open>+1\<close> or \<open>-1\<close>).
\<close>

definition Ax_minus_b :: "real list list \<Rightarrow> real list \<Rightarrow> real list \<Rightarrow> real list" where
  "Ax_minus_b A x b = map (\<lambda>i. (\<Sum>j\<leftarrow>[0..<length x]. A ! j ! i * x ! j) - b ! i) [0..<length b]"

definition binary_row :: "real \<Rightarrow> real \<Rightarrow> real \<Rightarrow> bool" where
  "binary_row a b c =
     ((a = 0 \<and> b = 0 \<and> c = 0)
      \<or> ((a = 1 \<or> a = - 1) \<and> b = 0 \<and> c = 0)
      \<or> (a = 0 \<and> (b = 1 \<or> b = - 1) \<and> c = 0)
      \<or> (a = 0 \<and> b = 0 \<and> (c = 1 \<or> c = - 1)))"

definition binary_rows :: "real list \<Rightarrow> bool" where
  "binary_rows x = list_all (\<lambda>i. binary_row (x ! (3 * i)) (x ! (3 * i + 1)) (x ! (3 * i + 2)))
                            [0..<length x div 3]"


section \<open>Properties\<close>

subsection \<open>The largest feasible step\<close>

lemma quadratic_positive_root:
  fixes a b c :: real
  assumes a: "0 < a" and c: "c \<le> 0"
  defines "r \<equiv> (- b + sqrt (b * b - 4 * a * c)) / (2 * a)"
  shows "0 \<le> r" and "a * r * r + b * r + c = 0"
    and "\<And>t. r < t \<Longrightarrow> 0 < a * t * t + b * t + c"
proof -
  let ?D = "b * b - 4 * a * c"
  have ac: "a * c \<le> 0" using a c by (simp add: mult_le_0_iff)
  have D: "b * b \<le> ?D" using ac by simp
  have D0: "0 \<le> ?D" using D by (smt (verit) zero_le_square)
  have "\<bar>b\<bar> = sqrt (b * b)" by simp
  also have "\<dots> \<le> sqrt ?D" using D by (rule real_sqrt_le_mono)
  finally have sb: "\<bar>b\<bar> \<le> sqrt ?D" .
  then have "0 \<le> - b + sqrt ?D" by linarith
  then show "0 \<le> r" unfolding r_def using a by simp
  have ss: "sqrt ?D * sqrt ?D = ?D" using D0 by simp
  have r2: "2 * a * r = - b + sqrt ?D" unfolding r_def using a by simp
  have "4 * a * (a * r * r + b * r + c) = (2 * a * r) * (2 * a * r) + 2 * b * (2 * a * r) + 4 * a * c"
    by (simp add: algebra_simps)
  also have "\<dots> = (- b + sqrt ?D) * (- b + sqrt ?D) + 2 * b * (- b + sqrt ?D) + 4 * a * c"
    by (simp only: r2)
  also have "\<dots> = sqrt ?D * sqrt ?D - ?D" by (simp add: algebra_simps)
  also have "\<dots> = 0" using ss by simp
  finally have "4 * a * (a * r * r + b * r + c) = 0" .
  then show root: "a * r * r + b * r + c = 0" using a by simp
  fix t assume t: "r < t"
  have "a * t * t + b * t + c = (a * t * t + b * t + c) - (a * r * r + b * r + c)"
    using root by simp
  also have "\<dots> = (t - r) * (a * (t + r) + b)" by (simp add: algebra_simps)
  finally have eq: "a * t * t + b * t + c = (t - r) * (a * (t + r) + b)" .
  have "2 * a * r + b \<ge> 0" using r2 sb by linarith
  moreover have "a * (t + r) > 2 * a * r" using t a by (simp add: algebra_simps)
  ultimately have "0 < a * (t + r) + b" by linarith
  then show "0 < a * t * t + b * t + c" using t eq by simp
qed

text \<open>
  C8. For \<open>\<parallel>x\<parallel> \<le> M\<close>: when \<open>\<parallel>p\<parallel>\<^sup>2\<close> is above the floor \<open>10\<^sup>-\<^sup>2\<^sup>0\<close>, the value returned by
  \<open>find_max_alphaf\<close> is non-negative, puts \<open>x - \<alpha> p\<close> on the sphere of radius \<open>M\<close>, and every
  \<open>\<beta> \<ge> 0\<close> with \<open>\<parallel>x - \<beta> p\<parallel>\<^sup>2 \<le> M\<^sup>2\<close> is at most it; when \<open>\<parallel>p\<parallel>\<^sup>2\<close> is below the floor the
  sentinel \<open>10\<^sup>1\<^sup>0\<^sup>0\<close> is returned.
\<close>

theorem find_max_alphaf_correct:
  fixes x1 x2 x3 p1 p2 p3 M :: real
  assumes feas: "sqrt (x1 * x1 + x2 * x2 + x3 * x3) \<le> M"
  defines "af \<equiv> find_max_alphaf x1 x2 x3 p1 p2 p3 M"
  shows "(p1 * p1 + p2 * p2 + p3 * p3 > 1 / 10 ^ 20 \<longrightarrow>
            0 \<le> af
          \<and> sqrt ((x1 - af * p1) * (x1 - af * p1) + (x2 - af * p2) * (x2 - af * p2)
                  + (x3 - af * p3) * (x3 - af * p3)) = M
          \<and> (\<forall>\<beta>. 0 \<le> \<beta> \<and> (x1 - \<beta> * p1) * (x1 - \<beta> * p1) + (x2 - \<beta> * p2) * (x2 - \<beta> * p2)
                  + (x3 - \<beta> * p3) * (x3 - \<beta> * p3) \<le> M * M \<longrightarrow> \<beta> \<le> af))
       \<and> (p1 * p1 + p2 * p2 + p3 * p3 < 1 / 10 ^ 20 \<longrightarrow> af = 10 ^ 100)"
proof (intro conjI impI)
  assume "p1 * p1 + p2 * p2 + p3 * p3 < 1 / 10 ^ 20"
  then show "af = 10 ^ 100" by (simp add: af_def find_max_alphaf_def)
next
  let ?a = "p1 * p1 + p2 * p2 + p3 * p3"
  let ?c = "x1 * x1 + x2 * x2 + x3 * x3 - M * M"
  let ?b = "- 2 * (x1 * p1 + x2 * p2 + x3 * p3)"
  assume big: "?a > 1 / 10 ^ 20"
  then have a: "0 < ?a" by (smt (verit) zero_less_divide_1_iff zero_less_numeral zero_less_power)
  have M0: "0 \<le> M" using feas real_sqrt_ge_zero [of "x1 * x1 + x2 * x2 + x3 * x3"]
    by (smt (verit) zero_le_square add_nonneg_nonneg)
  have nn: "0 \<le> x1 * x1 + x2 * x2 + x3 * x3" by simp
  have "x1 * x1 + x2 * x2 + x3 * x3 = sqrt (x1 * x1 + x2 * x2 + x3 * x3) * sqrt (x1 * x1 + x2 * x2 + x3 * x3)"
    using nn by simp
  also have "\<dots> \<le> M * M" using feas M0 by (intro mult_mono) simp_all
  finally have c: "?c \<le> 0" by simp
  have af: "af = (- ?b + sqrt (?b * ?b - 4 * ?a * ?c)) / (2 * ?a)"
    using big by (simp add: af_def find_max_alphaf_def Let_def)
  show "0 \<le> af" unfolding af by (rule quadratic_positive_root(1) [OF a c])
  have root: "?a * af * af + ?b * af + ?c = 0"
    unfolding af by (rule quadratic_positive_root(2) [OF a c])
  have expand: "\<And>t. (x1 - t * p1) * (x1 - t * p1) + (x2 - t * p2) * (x2 - t * p2)
      + (x3 - t * p3) * (x3 - t * p3) = (?a * t * t + ?b * t + ?c) + M * M"
    by (simp add: algebra_simps)
  show "sqrt ((x1 - af * p1) * (x1 - af * p1) + (x2 - af * p2) * (x2 - af * p2)
                  + (x3 - af * p3) * (x3 - af * p3)) = M"
    unfolding expand root using M0 by simp
  show "\<forall>\<beta>. 0 \<le> \<beta> \<and> (x1 - \<beta> * p1) * (x1 - \<beta> * p1) + (x2 - \<beta> * p2) * (x2 - \<beta> * p2)
                  + (x3 - \<beta> * p3) * (x3 - \<beta> * p3) \<le> M * M \<longrightarrow> \<beta> \<le> af"
  proof (intro allI impI, rule ccontr)
    fix \<beta>
    assume h: "0 \<le> \<beta> \<and> (x1 - \<beta> * p1) * (x1 - \<beta> * p1) + (x2 - \<beta> * p2) * (x2 - \<beta> * p2)
                  + (x3 - \<beta> * p3) * (x3 - \<beta> * p3) \<le> M * M"
    assume "\<not> \<beta> \<le> af"
    then have "af < \<beta>" by simp
    then have "0 < ?a * \<beta> * \<beta> + ?b * \<beta> + ?c"
      unfolding af by (rule quadratic_positive_root(3) [OF a c])
    with h show False unfolding expand by simp
  qed
qed

theorem find_max_alphaf_correct_witness:
  "sqrt (0 * 0 + 0 * 0 + 0 * 0) \<le> (1::real)
   \<and> (1::real) * 1 + 0 * 0 + 0 * 0 > 1 / 10 ^ 20
   \<and> find_max_alphaf 0 0 0 1 0 0 1 = 1
   \<and> sqrt ((0 - find_max_alphaf 0 0 0 1 0 0 1 * 1) * (0 - find_max_alphaf 0 0 0 1 0 0 1 * 1)
        + (0 - find_max_alphaf 0 0 0 1 0 0 1 * 0) * (0 - find_max_alphaf 0 0 0 1 0 0 1 * 0)
        + (0 - find_max_alphaf 0 0 0 1 0 0 1 * 0) * (0 - find_max_alphaf 0 0 0 1 0 0 1 * 0)) = 1
   \<and> find_max_alphaf 0 0 0 0 0 0 1 = 10 ^ 100"
proof -
  have h: "sqrt (0 * 0 + 0 * 0 + 0 * 0) \<le> (1::real)" by simp
  have v: "find_max_alphaf 0 0 0 1 0 0 1 = 1" by (simp add: find_max_alphaf_def)
  have s: "find_max_alphaf 0 0 0 0 0 0 1 = 10 ^ 100" by (simp add: find_max_alphaf_def)
  show ?thesis
    using find_max_alphaf_correct [OF h, of 1 0 0] find_max_alphaf_correct [OF h, of 0 0 0] v s
    by simp
qed

subsection \<open>Evaluation helpers\<close>

lemma replicate_numeral: "replicate (numeral k) v = v # replicate (pred_numeral k) v"
  by (simp add: numeral_eq_Suc)

lemma list_update_numeral: "(v # vs)[numeral k := w] = v # vs[pred_numeral k := w]"
  by (simp add: numeral_eq_Suc)

lemma select_mins_singleton: "select_mins n [v] = replicate n 0"
  by (induction n arbitrary: v) (simp_all add: Let_def)

lemma connectivity_matrix_single: "connectivity_matrix [P0] Nadjacent = [replicate 2000 0]"
  by (simp add: connectivity_matrix_def dist_ij_def select_mins_singleton)

subsection \<open>Histories without \<^verbatim>\<open>verbose\<close>\<close>

lemma baseline_loop_quiet:
  "\<not> verbose \<Longrightarrow> GPMO_baseline_loop A K verbose nh sd k st h = Inr (st', h') \<Longrightarrow> h' = h"
proof (induction A K verbose nh sd k st h rule: GPMO_baseline_loop.induct)
  case (1 A K verbose nh sd k st h)
  show ?case
  proof (cases "k < K")
    case False
    with "1.prems" show ?thesis by (simp add: GPMO_baseline_loop.simps)
  next
    case True
    with "1.prems" obtain st1 where s: "GPMO_baseline_step A sd k st = Inr st1"
      and r: "GPMO_baseline_loop A K verbose nh sd (k + 1) st1 h = Inr (st', h')"
      by (subst (asm) GPMO_baseline_loop.simps) (auto split: sum.splits)
    from "1.IH"(2) [OF True s "1.prems"(1) "1.prems"(1) r] show ?thesis .
  qed
qed

lemma MC_loop_quiet:
  "\<not> verbose \<Longrightarrow> GPMO_MC_loop A K verbose nh k st h = Inr (st', h') \<Longrightarrow> h' = h"
proof (induction A K verbose nh k st h rule: GPMO_MC_loop.induct)
  case (1 A K verbose nh k st h)
  show ?case
  proof (cases "k < K")
    case False
    with "1.prems" show ?thesis by (simp add: GPMO_MC_loop.simps)
  next
    case True
    with "1.prems" obtain st1 where s: "GPMO_MC_step A k st = Inr st1"
      and r: "GPMO_MC_loop A K verbose nh (k + 1) st1 h = Inr (st', h')"
      by (subst (asm) GPMO_MC_loop.simps) (auto split: sum.splits)
    from "1.IH"(2) [OF True s "1.prems"(1) "1.prems"(1) r] show ?thesis .
  qed
qed

lemma multi_loop_quiet:
  "\<not> verbose \<Longrightarrow> GPMO_multi_loop A C K verbose nh sd Nadj k st h = Inr (st', h') \<Longrightarrow> h' = h"
proof (induction A C K verbose nh sd Nadj k st h rule: GPMO_multi_loop.induct)
  case (1 A C K verbose nh sd Nadj k st h)
  show ?case
  proof (cases "k < K")
    case False
    with "1.prems" show ?thesis by (simp add: GPMO_multi_loop.simps)
  next
    case True
    with "1.prems" obtain st1 where s: "GPMO_multi_step A C sd Nadj k st = Inr st1"
      and r: "GPMO_multi_loop A C K verbose nh sd Nadj (k + 1) st1 h = Inr (st', h')"
      by (subst (asm) GPMO_multi_loop.simps) (auto split: sum.splits)
    from "1.IH"(2) [OF True s "1.prems"(1) "1.prems"(1) r] show ?thesis .
  qed
qed

lemma backtracking_loop_quiet:
  "\<not> verbose \<Longrightarrow> GPMO_backtracking_loop A C K verbose nh bt sd Nadj k st h = Inr (st', h')
     \<Longrightarrow> h' = h"
proof (induction A C K verbose nh bt sd Nadj k st h rule: GPMO_backtracking_loop.induct)
  case (1 A C K verbose nh bt sd Nadj k st h)
  show ?case
  proof (cases "k < K")
    case False
    with "1.prems" show ?thesis by (simp add: GPMO_backtracking_loop.simps)
  next
    case True
    with "1.prems" obtain st1 where s: "GPMO_backtracking_step A C K sd Nadj bt k st = Inr st1"
      and r: "GPMO_backtracking_loop A C K verbose nh bt sd Nadj (k + 1) st1 h = Inr (st', h')"
      by (subst (asm) GPMO_backtracking_loop.simps) (auto split: sum.splits)
    from "1.IH"(2) [OF True s "1.prems"(1) "1.prems"(1) r] show ?thesis .
  qed
qed

lemma baseline_loop_total:
  "0 < length A div 3 \<Longrightarrow> \<exists>r. GPMO_baseline_loop A K False nh sd k st h = Inr r"
proof (induction "K - k" arbitrary: k st)
  case 0
  then show ?case by (simp add: GPMO_baseline_loop.simps)
next
  case (Suc n)
  then have kK: "k < K" by simp
  from Suc.prems obtain st1 where s: "GPMO_baseline_step A sd k st = Inr st1"
    by (simp add: GPMO_baseline_step_def Let_def)
  have "n = K - (k + 1)" using Suc.hyps(2) by simp
  from Suc.hyps(1) [OF this Suc.prems]
  obtain r where "GPMO_baseline_loop A K False nh sd (k + 1) st1 h = Inr r" by blast
  then show ?case using kK s by (subst GPMO_baseline_loop.simps) simp
qed

lemma MC_loop_total:
  "0 < length A div 3 \<Longrightarrow> \<exists>r. GPMO_MC_loop A K False nh k st h = Inr r"
proof (induction "K - k" arbitrary: k st)
  case 0
  then show ?case by (simp add: GPMO_MC_loop.simps)
next
  case (Suc n)
  then have kK: "k < K" by simp
  from Suc.prems obtain st1 where s: "GPMO_MC_step A k st = Inr st1"
    by (simp add: GPMO_MC_step_def Let_def)
  have "n = K - (k + 1)" using Suc.hyps(2) by simp
  from Suc.hyps(1) [OF this Suc.prems]
  obtain r where "GPMO_MC_loop A K False nh (k + 1) st1 h = Inr r" by blast
  then show ?case using kK s by (subst GPMO_MC_loop.simps) simp
qed

text \<open>The reads of the \<^verbatim>\<open>Aij_l2\<close> loop stay inside the buffer when \<open>ngrid \<le> 3 N\<close>.\<close>

lemma Aij_l2_in_range_if:
  assumes "ngrid_of A \<le> 3 * (length A div 3)"
  shows "Aij_l2_in_range A"
proof -
  have "i * ngrid_of A + j < length A * ngrid_of A"
    if i: "i < ngrid_of A" and j: "j < 3 * (length A div 3)" for i j
  proof -
    obtain d where d: "3 * (length A div 3) = ngrid_of A + d"
      using assms by (metis le_iff_add)
    have n: "3 * (length A div 3) \<le> length A" by simp
    from i have "(i + 1) * ngrid_of A \<le> ngrid_of A * ngrid_of A" by (intro mult_le_mono1) simp
    then have a: "i * ngrid_of A + ngrid_of A \<le> ngrid_of A * ngrid_of A" by simp
    from i have g: "d \<le> d * ngrid_of A" by (cases "ngrid_of A") simp_all
    have "i * ngrid_of A + j < i * ngrid_of A + ngrid_of A + d" using j d by simp
    also have "\<dots> \<le> ngrid_of A * ngrid_of A + d * ngrid_of A" using a g by (rule add_mono)
    also have "\<dots> = (3 * (length A div 3)) * ngrid_of A" unfolding d by (simp add: algebra_simps)
    also have "\<dots> \<le> length A * ngrid_of A" using n by (intro mult_le_mono1)
    finally show ?thesis .
  qed
  then show ?thesis by (auto simp: Aij_l2_in_range_def Aij_l2_reads_def list_all_iff)
qed

text \<open>
  The history buffers are written by \<^verbatim>\<open>print_GPMO\<close> (by the inline block in \<^verbatim>\<open>GPMO_MC\<close>)
  only, and only under \<^verbatim>\<open>verbose\<close>: a run without \<^verbatim>\<open>verbose\<close> that stays inside its arrays
  returns the zero arrays the buffers were initialised to. \<^verbatim>\<open>GPMO_baseline\<close> does so
  whenever there is a dipole, \<^verbatim>\<open>GPMO_MC\<close> whenever there is a dipole and \<open>ngrid \<le> 3 N\<close>; for
  \<^verbatim>\<open>GPMO_multi\<close> and \<^verbatim>\<open>GPMO_backtracking\<close> the statement is about the runs that return.
\<close>

theorem GPMO_quiet_histories_zero:
  "(0 < length A div 3 \<longrightarrow>
      (\<exists>x. GPMO_baseline A b K False nhistory sd =
             Inr (replicate (nhistory + 1) 0, replicate (nhistory + 1) (replicate (3 * (length A div 3)) 0), x)))
   \<and> (0 < length A div 3 \<and> ngrid_of A \<le> 3 * (length A div 3) \<longrightarrow>
      (\<exists>x. GPMO_MC A b u K False nhistory =
             Inr (replicate (nhistory + 1) 0, replicate (nhistory + 1) (replicate (3 * (length A div 3)) 0), x)))
   \<and> (\<forall>oh mh x. GPMO_multi A b K False nhistory P sd Nadj = Inr (oh, mh, x) \<longrightarrow>
         oh = replicate (nhistory + 1) 0
       \<and> mh = replicate (nhistory + 1) (replicate (3 * (length A div 3)) 0))
   \<and> (\<forall>oh mh x. GPMO_backtracking A b K False nhistory bt P sd Nadj = Inr (oh, mh, x) \<longrightarrow>
         oh = replicate (nhistory + 1) 0
       \<and> mh = replicate (nhistory + 1) (replicate (3 * (length A div 3)) 0))"
proof (intro conjI impI allI)
  assume N: "0 < length A div 3"
  from baseline_loop_total [OF N]
  obtain st h where r: "GPMO_baseline_loop A K False nhistory sd 0 (GPMO_baseline_init A b K)
      (GPMO_history0 (length A div 3) nhistory) = Inr (st, h)"
    by (metis surj_pair)
  from baseline_loop_quiet [OF _ r] have "h = GPMO_history0 (length A div 3) nhistory" by simp
  with r show "\<exists>x. GPMO_baseline A b K False nhistory sd =
      Inr (replicate (nhistory + 1) 0, replicate (nhistory + 1) (replicate (3 * (length A div 3)) 0), x)"
    by (simp add: GPMO_baseline_def GPMO_history0_def)
next
  assume "0 < length A div 3 \<and> ngrid_of A \<le> 3 * (length A div 3)"
  then have N: "0 < length A div 3" and g: "Aij_l2_in_range A"
    by (simp_all add: Aij_l2_in_range_if)
  from MC_loop_total [OF N]
  obtain st h where r: "GPMO_MC_loop A K False nhistory 0 (GPMO_MC_init A b u K)
      (GPMO_history0 (length A div 3) nhistory) = Inr (st, h)"
    by (metis surj_pair)
  from MC_loop_quiet [OF _ r] have "h = GPMO_history0 (length A div 3) nhistory" by simp
  with r g show "\<exists>x. GPMO_MC A b u K False nhistory =
      Inr (replicate (nhistory + 1) 0, replicate (nhistory + 1) (replicate (3 * (length A div 3)) 0), x)"
    by (simp add: GPMO_MC_def GPMO_history0_def)
next
  fix oh mh x
  assume "GPMO_multi A b K False nhistory P sd Nadj = Inr (oh, mh, x)"
  then obtain st h where r: "GPMO_multi_loop A (connectivity_matrix P Nadj) K False nhistory sd Nadj 0
      (GPMO_baseline_init A b K) (GPMO_history0 (length A div 3) nhistory) = Inr (st, h)"
    and o: "oh = objective_history h" "mh = m_history h"
    by (auto simp: GPMO_multi_def split: sum.splits)
  from multi_loop_quiet [OF _ r] have "h = GPMO_history0 (length A div 3) nhistory" by simp
  with o show "oh = replicate (nhistory + 1) 0"
    and "mh = replicate (nhistory + 1) (replicate (3 * (length A div 3)) 0)"
    by (simp_all add: GPMO_history0_def)
next
  fix oh mh x
  assume "GPMO_backtracking A b K False nhistory bt P sd Nadj = Inr (oh, mh, x)"
  then obtain st h where r: "GPMO_backtracking_loop A (connectivity_matrix P Nadj) K False nhistory bt
      sd Nadj 0 (GPMO_backtracking_init A b K) (GPMO_history0 (length A div 3) nhistory) = Inr (st, h)"
    and o: "oh = objective_history h" "mh = m_history h"
    by (auto simp: GPMO_backtracking_def split: sum.splits)
  from backtracking_loop_quiet [OF _ r] have "h = GPMO_history0 (length A div 3) nhistory" by simp
  with o show "oh = replicate (nhistory + 1) 0"
    and "mh = replicate (nhistory + 1) (replicate (3 * (length A div 3)) 0)"
    by (simp_all add: GPMO_history0_def)
qed

lemma multi_loop_example:
  "GPMO_multi_loop [[1], [0], [0]] [replicate 2000 0] 1 False 1 (- 1) 1 0
     (GPMO_baseline_init [[1], [0], [0]] [1] 1) (GPMO_history0 (length [[1], [0], [0::real]] div 3) 1)
   = Inr (\<lparr>x_arr = [1, 0, 0], Gamma_complement = [False, False, False], Aij_mj_sum = [0],
            skj = [0], skjj = [0], sign_fac = [1], R2s = replicate 6 (10 ^ 50)\<rparr>, GPMO_history0 1 1)"
  by code_simp

lemma backtracking_loop_example:
  "GPMO_backtracking_loop [[1], [0], [0]] [replicate 2000 0] 1 False 1 1 (- 1) 1 0
     (GPMO_backtracking_init [[1], [0], [0]] [1] 1) (GPMO_history0 (length [[1], [0], [0::real]] div 3) 1)
   = Inr (\<lparr>x_arr = [1, 0, 0], Gamma_complement = [False, False, False], Aij_mj_sum = [0],
            skj = [0], skjj = [0], sign_fac = [1], R2s = replicate 6 (10 ^ 50),
            sk_sign_fac = [1], skjj_ind = [0]\<rparr>, GPMO_history0 1 1)"
  by code_simp

theorem GPMO_quiet_histories_zero_witness:
  "0 < length [[1], [0], [0::real]] div 3
   \<and> ngrid_of [[1], [0], [0::real]] \<le> 3 * (length [[1], [0], [0::real]] div 3)
   \<and> GPMO_baseline [[1], [0], [0]] [1] 1 False 1 (- 1) = Inr ([0, 0], [[0, 0, 0], [0, 0, 0]], [1, 0, 0])
   \<and> GPMO_MC [[1], [0], [0]] [1] [1, 0, 0] 1 False 1 = Inr ([0, 0], [[0, 0, 0], [0, 0, 0]], [1, 0, 0])
   \<and> GPMO_multi [[1], [0], [0]] [1] 1 False 1 [(0, 0, 0)] (- 1) 1
        = Inr ([0, 0], [[0, 0, 0], [0, 0, 0]], [1, 0, 0])
   \<and> GPMO_backtracking [[1], [0], [0]] [1] 1 False 1 1 [(0, 0, 0)] (- 1) 1
        = Inr ([0, 0], [[0, 0, 0], [0, 0, 0]], [1, 0, 0])"
proof -
  have N: "0 < length [[1], [0], [0::real]] div 3" by simp
  have b: "GPMO_baseline [[1], [0], [0]] [1] 1 False 1 (- 1) = Inr ([0, 0], [[0, 0, 0], [0, 0, 0]], [1, 0, 0])"
    by code_simp
  have m: "GPMO_MC [[1], [0], [0]] [1] [1, 0, 0] 1 False 1 = Inr ([0, 0], [[0, 0, 0], [0, 0, 0]], [1, 0, 0])"
    by code_simp
  have h0: "GPMO_history0 1 1 = \<lparr>print_iter = 0, m_history = [[0, 0, 0], [0, 0, 0]], objective_history = [0, 0]\<rparr>"
    by code_simp
  have mu: "GPMO_multi [[1], [0], [0]] [1] 1 False 1 [(0, 0, 0)] (- 1) 1
        = Inr ([0, 0], [[0, 0, 0], [0, 0, 0]], [1, 0, 0])"
    unfolding GPMO_multi_def connectivity_matrix_single multi_loop_example h0 by simp
  have bt: "GPMO_backtracking [[1], [0], [0]] [1] 1 False 1 1 [(0, 0, 0)] (- 1) 1
        = Inr ([0, 0], [[0, 0, 0], [0, 0, 0]], [1, 0, 0])"
    unfolding GPMO_backtracking_def connectivity_matrix_single backtracking_loop_example h0 by simp
  note T = GPMO_quiet_histories_zero [of "[[1], [0], [0]]" "[1]" 1 1 "- 1" "[1, 0, 0]" "[(0, 0, 0)]" 1 1]
  from T N have "\<exists>x. GPMO_baseline [[1], [0], [0]] [1] 1 False 1 (- 1) =
      Inr (replicate (1 + 1) 0, replicate (1 + 1) (replicate (3 * (length [[1], [0], [0::real]] div 3)) 0), x)"
    by blast
  moreover have "ngrid_of [[1], [0], [0::real]] \<le> 3 * (length [[1], [0], [0::real]] div 3)"
    by (simp add: ngrid_of_def)
  ultimately show ?thesis using N b m mu bt by blast
qed



subsection \<open>The sign choice of \<^verbatim>\<open>GPMO_MC\<close>\<close>







subsection \<open>The GPMO loops run \<open>K\<close> times\<close>

















subsection \<open>Selecting a slot that is not available\<close>

text \<open>
  C4 on the code. \<^verbatim>\<open>GPMO_baseline\<close> with one dipole and \<open>K = 2\<close>: the second iteration
  finds every \<^verbatim>\<open>R2s\<close> entry at the sentinel, \<^verbatim>\<open>std::min_element\<close> returns index 0, and the
  column of slot 0 is added to the residual again while \<^verbatim>\<open>x\<close> stays \<open>(1, 0, 0)\<close>: the running
  residual is \<open>[1]\<close>, \<open>A x - b\<close> is \<open>[0]\<close>. \<^verbatim>\<open>GPMO_MC\<close> with two dipoles and \<open>K = 2\<close>: after the
  first placement every available \<open>u\<^sub>c\<close> is 0, \<^verbatim>\<open>std::max_element\<close> over \<^verbatim>\<open>abs_uk\<close> returns
  index 0, the slot just used; the running residual is \<open>[1, 0]\<close>, \<open>A x - b\<close> is \<open>[0, 0]\<close>.
\<close>

theorem GPMO_residual_drift:
  "GPMO_baseline_loop [[1], [0], [0]] 2 False 1 (- 1) 0
       (GPMO_baseline_init [[1], [0], [0]] [1] 2) (GPMO_history0 1 1)
     = Inr (\<lparr>x_arr = [1, 0, 0], Gamma_complement = [False, False, False], Aij_mj_sum = [1],
             skj = [0, 0], skjj = [0, 0], sign_fac = [1, 1], R2s = replicate 6 (10 ^ 50)\<rparr>,
            GPMO_history0 1 1)
   \<and> Ax_minus_b [[1], [0], [0]] [1, 0, 0] [1] = [0]
   \<and> GPMO_MC_loop [[1, 0], [0, 1], [0, 1], [0, 1], [0, 1], [0, 1]] 2 False 1 0
       (GPMO_MC_init [[1, 0], [0, 1], [0, 1], [0, 1], [0, 1], [0, 1]] [1, 0] [1, 0, 0, 0, 0, 0] 2)
       (GPMO_history0 2 1)
     = Inr (\<lparr>x_arr = [1, 0, 0, 0, 0, 0],
             Gamma_complement = [False, False, False, True, True, True], Aij_mj_sum = [1, 0],
             skj = [0, 0], skjj = [0, 0], sign_fac = [1, 1], uk = [1, 0, 0, 0, 0, 0]\<rparr>,
            GPMO_history0 2 1)
   \<and> Ax_minus_b [[1, 0], [0, 1], [0, 1], [0, 1], [0, 1], [0, 1]] [1, 0, 0, 0, 0, 0] [1, 0] = [0, 0]"
  by code_simp

text \<open>
  C5 on the code. \<^verbatim>\<open>GPMO_MC\<close> with two dipoles and \<open>K = 2\<close>: the first iteration places
  \<open>+1\<close> on component 1 of dipole 0; then every available \<open>u\<^sub>c\<close> is 0 and index 0 is selected,
  component 0 of the same dipole: its row becomes \<open>(1, 1, 0)\<close>. \<^verbatim>\<open>GPMO_baseline\<close> with one
  dipole and \<open>K = 2\<close> ends with the same row.
\<close>

theorem GPMO_binarity_broken:
  "GPMO_MC [[0, 1], [1, 0], [0, 1], [0, 1], [0, 1], [0, 1]] [1, 0] [0, 1, 0, 0, 0, 0] 2 False 1
     = Inr ([0, 0], [[0, 0, 0, 0, 0, 0], [0, 0, 0, 0, 0, 0]], [1, 1, 0, 0, 0, 0])
   \<and> \<not> binary_rows [1, 1, 0, 0, 0, 0]
   \<and> GPMO_baseline [[0], [1], [0]] [1] 2 False 1 (- 1)
     = Inr ([0, 0], [[0, 0, 0], [0, 0, 0]], [1, 1, 0])
   \<and> \<not> binary_rows [1, 1, 0]"
  by code_simp

subsection \<open>Connectivity rows\<close>




lemma select_mins_length [simp]: "length (select_mins n d) = n"
  by (induction n arbitrary: d) (simp_all add: Let_def)













subsection \<open>MwPGP: steps and the L2 balls\<close>

text \<open>Facts about the step rules, in exact arithmetic: the projection lands in the ball, a
  step no longer than the largest feasible one stays in the ball, and \<open>Q\<close> is positive
  semidefinite when \<open>\<lambda>\<^sub>2 + 1 / (2 \<nu>) \<ge> 0\<close>, which keeps \<^verbatim>\<open>gp\<close> non-negative.\<close>

lemma quadratic_below_root:
  fixes a b c t :: real
  assumes a: "0 < a" and c: "c \<le> 0" and t0: "0 \<le> t"
    and t: "t \<le> (- b + sqrt (b * b - 4 * a * c)) / (2 * a)"
  shows "a * t * t + b * t + c \<le> 0"
proof -
  define r where "r = (- b + sqrt (b * b - 4 * a * c)) / (2 * a)"
  let ?D = "b * b - 4 * a * c"
  have ac: "a * c \<le> 0" using a c by (simp add: mult_le_0_iff)
  have "\<bar>b\<bar> = sqrt (b * b)" by simp
  also have "\<dots> \<le> sqrt ?D" using ac by (intro real_sqrt_le_mono) simp
  finally have sb: "\<bar>b\<bar> \<le> sqrt ?D" .
  have r2: "2 * a * r = - b + sqrt ?D" unfolding r_def using a by simp
  have root: "a * r * r + b * r + c = 0"
    unfolding r_def by (rule quadratic_positive_root(2) [OF a c])
  have "a * t * t + b * t + c = (a * t * t + b * t + c) - (a * r * r + b * r + c)"
    using root by simp
  also have "\<dots> = (t - r) * (a * (t + r) + b)" by (simp add: algebra_simps)
  finally have eq: "a * t * t + b * t + c = (t - r) * (a * (t + r) + b)" .
  have "2 * (a * r + b) = 2 * a * r + 2 * b" by (simp add: algebra_simps)
  also have "\<dots> = b + sqrt ?D" unfolding r2 by simp
  finally have "0 \<le> 2 * (a * r + b)" using sb by linarith
  then have "0 \<le> a * r + b" by simp
  moreover have "0 \<le> a * t" using a t0 by simp
  ultimately have "0 \<le> a * (t + r) + b" by (simp add: algebra_simps)
  moreover have "t - r \<le> 0" using t unfolding r_def by simp
  ultimately show ?thesis unfolding eq by (simp add: mult_le_0_iff)
qed

lemma feasible_iff:
  "feasible M x \<longleftrightarrow>
     (\<forall>i<length M. case x ! i of (x1, x2, x3) \<Rightarrow> sqrt (x1 * x1 + x2 * x2 + x3 * x3) \<le> M ! i)"
  by (simp add: feasible_def list_all_iff Ball_def)

lemma projection_feasible:
  assumes M: "0 < M"
  shows "case projection_L2_balls y1 y2 y3 M of (a, b, c) \<Rightarrow> sqrt (a * a + b * b + c * c) \<le> M"
proof -
  define r where "r = sqrt (y1 * y1 + y2 * y2 + y3 * y3)"
  define d where "d = max 1 (r / M)"
  have r0: "0 \<le> r" unfolding r_def by simp
  have d1: "1 \<le> d" unfolding d_def by simp
  then have d0: "0 < d" by linarith
  have "(y1 / d) * (y1 / d) + (y2 / d) * (y2 / d) + (y3 / d) * (y3 / d)
          = (y1 * y1 + y2 * y2 + y3 * y3) / (d * d)"
    by (simp add: add_divide_distrib)
  then have "sqrt ((y1 / d) * (y1 / d) + (y2 / d) * (y2 / d) + (y3 / d) * (y3 / d)) = r / d"
    unfolding r_def using d0 by (simp add: real_sqrt_divide)
  moreover have "r / d \<le> M"
  proof -
    have "r / M \<le> d" unfolding d_def by simp
    then have "r \<le> d * M" using M by (simp add: pos_divide_le_eq)
    then show ?thesis using d0 by (simp add: pos_divide_le_eq mult.commute)
  qed
  ultimately show ?thesis
    unfolding projection_L2_balls_def Let_def r_def [symmetric] d_def [symmetric] by simp
qed

lemma cg_step_feasible:
  assumes feas: "sqrt (x1 * x1 + x2 * x2 + x3 * x3) \<le> M"
    and t0: "0 \<le> t" and t: "t < find_max_alphaf x1 x2 x3 p1 p2 p3 M"
    and clear: "p1 * p1 + p2 * p2 + p3 * p3 > 1 / 10 ^ 20 \<or> (p1 = 0 \<and> p2 = 0 \<and> p3 = 0)"
  shows "sqrt ((x1 + - t * p1) * (x1 + - t * p1) + (x2 + - t * p2) * (x2 + - t * p2)
              + (x3 + - t * p3) * (x3 + - t * p3)) \<le> M"
proof (cases "p1 = 0 \<and> p2 = 0 \<and> p3 = 0")
  case True
  with feas show ?thesis by simp
next
  case False
  let ?a = "p1 * p1 + p2 * p2 + p3 * p3"
  let ?c = "x1 * x1 + x2 * x2 + x3 * x3 - M * M"
  let ?b = "- 2 * (x1 * p1 + x2 * p2 + x3 * p3)"
  from False clear have big: "?a > 1 / 10 ^ 20" by blast
  then have a: "0 < ?a" by (smt (verit) zero_less_divide_1_iff zero_less_numeral zero_less_power)
  have M0: "0 \<le> M" using feas real_sqrt_ge_zero [of "x1 * x1 + x2 * x2 + x3 * x3"]
    by (smt (verit) zero_le_square add_nonneg_nonneg)
  have nn: "0 \<le> x1 * x1 + x2 * x2 + x3 * x3" by simp
  have "x1 * x1 + x2 * x2 + x3 * x3 = sqrt (x1 * x1 + x2 * x2 + x3 * x3) * sqrt (x1 * x1 + x2 * x2 + x3 * x3)"
    using nn by simp
  also have "\<dots> \<le> M * M" using feas M0 by (intro mult_mono) simp_all
  finally have c: "?c \<le> 0" by simp
  have af: "find_max_alphaf x1 x2 x3 p1 p2 p3 M = (- ?b + sqrt (?b * ?b - 4 * ?a * ?c)) / (2 * ?a)"
    using big by (simp add: find_max_alphaf_def Let_def)
  have "?a * t * t + ?b * t + ?c \<le> 0"
    by (rule quadratic_below_root [OF a c t0]) (use t af in simp)
  moreover have "(x1 + - t * p1) * (x1 + - t * p1) + (x2 + - t * p2) * (x2 + - t * p2)
              + (x3 + - t * p3) * (x3 + - t * p3) = (?a * t * t + ?b * t + ?c) + M * M"
    by (simp add: algebra_simps)
  ultimately have "(x1 + - t * p1) * (x1 + - t * p1) + (x2 + - t * p2) * (x2 + - t * p2)
              + (x3 + - t * p3) * (x3 + - t * p3) \<le> M * M" by linarith
  then have "sqrt ((x1 + - t * p1) * (x1 + - t * p1) + (x2 + - t * p2) * (x2 + - t * p2)
              + (x3 + - t * p3) * (x3 + - t * p3)) \<le> sqrt (M * M)"
    by (rule real_sqrt_le_mono)
  then show ?thesis using M0 by simp
qed

lemma min_element_le: "min_element a as \<le> a \<and> (\<forall>v\<in>set as. min_element a as \<le> v)"
proof (induction as arbitrary: a)
  case Nil
  then show ?case by (simp add: min_element_def)
next
  case (Cons v as)
  have e: "min_element a (v # as) = min_element (if v < a then v else a) as"
    by (simp add: min_element_def)
  from Cons [of "if v < a then v else a"] show ?case unfolding e
    by (auto split: if_splits intro: order_trans) 
qed

lemma length_flat [simp]: "length (flat v) = 3 * length v"
  by (induction v rule: flat.induct) simp_all

lemma length_unflat: "length z = 3 * n \<Longrightarrow> length (unflat z) = n"
proof (induction z arbitrary: n rule: unflat.induct)
  case (1 a b c r)
  then obtain m where n: "n = Suc m" by (cases n) auto
  with 1 show ?case by simp
qed simp_all

lemma length_vec_mat:
  "\<forall>row\<in>set A. length row = n \<Longrightarrow> length y = length A \<Longrightarrow> length (vec_mat n y A) = n"
  by (induction n y A rule: vec_mat.induct) simp_all

lemma dotl_Nil [simp]: "dotl [] v = 0" "dotl u [] = 0"
  by (simp_all add: dotl_def)

lemma dotl_Cons [simp]: "dotl (a # u) (b # v) = a * b + dotl u v"
  by (simp add: dotl_def)

lemma dotl_add_right:
  "length u = length v \<Longrightarrow> length w = length v \<Longrightarrow> dotl u (map2 (+) v w) = dotl u v + dotl u w"
proof (induction u arbitrary: v w)
  case Nil
  then show ?case by simp
next
  case (Cons a u)
  then obtain b v' c w' where "v = b # v'" "w = c # w'" by (cases v; cases w) auto
  with Cons show ?case by (simp add: algebra_simps)
qed

lemma dotl_scale_right: "dotl u (map (\<lambda>t. c * t) v) = c * dotl u v"
proof (induction u arbitrary: v)
  case Nil
  then show ?case by simp
next
  case (Cons a u)
  show ?case
  proof (cases v)
    case Nil
    then show ?thesis by simp
  next
    case (Cons b v')
    have "dotl (a # u) (map (\<lambda>t. c * t) (b # v')) = a * (c * b) + dotl u (map (\<lambda>t. c * t) v')"
      by simp
    also have "\<dots> = a * (c * b) + c * dotl u v'" by (simp only: Cons.IH)
    also have "\<dots> = c * dotl (a # u) (b # v')" by (simp add: algebra_simps)
    finally show ?thesis unfolding Cons .
  qed
qed

lemma dotl_commute: "dotl u v = dotl v u"
proof (induction u arbitrary: v)
  case Nil
  then show ?case by simp
next
  case (Cons a u)
  show ?case by (cases v) (simp_all add: Cons.IH)
qed

lemma dotl_replicate_0 [simp]: "dotl u (replicate n 0) = 0"
proof (induction u arbitrary: n)
  case Nil
  then show ?case by simp
next
  case (Cons a u)
  show ?case by (cases n) (simp_all add: Cons)
qed

lemma dotl_vec_mat:
  "\<forall>row\<in>set A. length row = n \<Longrightarrow> length y = length A \<Longrightarrow> length v = n
   \<Longrightarrow> dotl v (vec_mat n y A) = dotl y (mat_vec A v)"
proof (induction n y A rule: vec_mat.induct)
  case (1 n yi y row A)
  have l1: "length (map ((*) yi) row) = length (vec_mat n y A)"
    using 1 by (simp add: length_vec_mat)
  have l2: "length v = length (map ((*) yi) row)" using 1 by simp
  have "dotl v (vec_mat n (yi # y) (row # A))
          = dotl v (map ((*) yi) row) + dotl v (vec_mat n y A)"
    using dotl_add_right [of v "map ((*) yi) row" "vec_mat n y A"] l1 l2 by simp
  also have "dotl v (map ((*) yi) row) = yi * dotl v row" by (rule dotl_scale_right)
  also have "dotl v (vec_mat n y A) = dotl y (mat_vec A v)" using 1 by simp
  also have "dotl v row = dotl row v" by (rule dotl_commute)
  finally show ?case by (simp add: mat_vec_def)
qed (simp_all add: mat_vec_def)

lemma dotl_self_nonneg: "0 \<le> dotl v v"
  by (induction v) simp_all

lemma dot3_unflat:
  "length z = 3 * length p \<Longrightarrow> (\<Sum>i\<leftarrow>[0..<length p]. dot3 (p ! i) (unflat z ! i)) = dotl (flat p) z"
proof (induction p arbitrary: z)
  case Nil
  then show ?case by simp
next
  case (Cons u p)
  from Cons.prems obtain a b c r where z: "z = a # b # c # r" and r: "length r = 3 * length p"
    by (cases z; cases "tl z"; cases "tl (tl z)") auto
  obtain u1 u2 u3 where u: "u = (u1, u2, u3)" by (cases u) auto
  have "(\<Sum>i\<leftarrow>[0..<length (u # p)]. dot3 ((u # p) ! i) (unflat z ! i))
      = dot3 u (a, b, c) + (\<Sum>i\<leftarrow>[0..<length p]. dot3 (p ! i) (unflat r ! i))"
    unfolding z by (simp add: upt_rec [of 0 "Suc (length p)"] map_Suc_upt [symmetric] o_def del: upt_Suc)
  also have "\<dots> = dotl (flat (u # p)) z" using Cons.IH [OF r] by (simp add: u z)
  finally show ?case .
qed

lemma Q_times_psd:
  assumes rows: "\<forall>row\<in>set (A_obj a). length row = 3 * length (ATb a)"
    and lp: "length p = length (ATb a)"
    and c: "0 \<le> reg_l2 a + 1 / (2 * nu a)"
  shows "0 \<le> (\<Sum>i\<leftarrow>[0..<length (ATb a)]. dot3 (p ! i) (Q_times a p ! i))"
    and "length (Q_times a p) = length (ATb a)"
proof -
  let ?n = "3 * length (ATb a)"
  let ?v = "flat p"
  let ?y = "mat_vec (A_obj a) ?v"
  let ?c = "2 * (reg_l2 a + 1 / (2 * nu a))"
  let ?z = "map2 (+) (vec_mat ?n ?y (A_obj a)) (map (\<lambda>t. 2 * t * (reg_l2 a + 1 / (2 * nu a))) ?v)"
  have ly: "length ?y = length (A_obj a)" by (simp add: mat_vec_def)
  have lv: "length ?v = ?n" using lp by simp
  have lvm: "length (vec_mat ?n ?y (A_obj a)) = ?n" by (rule length_vec_mat [OF rows ly])
  have lz: "length ?z = 3 * length p" using lvm lv lp by simp
  show "length (Q_times a p) = length (ATb a)"
    unfolding Q_times_def using length_unflat [OF lz] lp by simp
  have sc: "map (\<lambda>t. 2 * t * (reg_l2 a + 1 / (2 * nu a))) ?v = map (\<lambda>t. ?c * t) ?v"
    by (simp add: algebra_simps)
  have "(\<Sum>i\<leftarrow>[0..<length (ATb a)]. dot3 (p ! i) (Q_times a p ! i))
          = (\<Sum>i\<leftarrow>[0..<length p]. dot3 (p ! i) (unflat ?z ! i))"
    by (simp add: Q_times_def lp)
  also have "\<dots> = dotl ?v ?z" by (rule dot3_unflat [OF lz])
  also have "\<dots> = dotl ?v (vec_mat ?n ?y (A_obj a)) + dotl ?v (map (\<lambda>t. ?c * t) ?v)"
    unfolding sc by (rule dotl_add_right) (simp_all add: lvm lv lp)
  also have "dotl ?v (vec_mat ?n ?y (A_obj a)) = dotl ?y ?y"
    by (rule dotl_vec_mat [OF rows ly lv])
  also have "dotl ?v (map (\<lambda>t. ?c * t) ?v) = ?c * dotl ?v ?v" by (rule dotl_scale_right)
  finally have "(\<Sum>i\<leftarrow>[0..<length (ATb a)]. dot3 (p ! i) (Q_times a p ! i))
                  = dotl ?y ?y + ?c * dotl ?v ?v" .
  moreover have "0 \<le> dotl ?y ?y" "0 \<le> dotl ?v ?v" by (rule dotl_self_nonneg)+
  moreover have "0 \<le> ?c" using c by simp
  ultimately show "0 \<le> (\<Sum>i\<leftarrow>[0..<length (ATb a)]. dot3 (p ! i) (Q_times a p ! i))"
    by simp
qed

lemma phi_dot_nonneg: "0 \<le> dot3 (g1, g2, g3) (phi_MwPGP x1 x2 x3 g1 g2 g3 M)"
  by (simp add: phi_MwPGP_def Let_def)

lemma phi_at_dot_nonneg: "0 \<le> dot3 (g ! i) (phi_at a x g i)"
  using phi_dot_nonneg by (simp add: phi_at_def split: prod.splits)

lemma sum_list_upt_cong:
  "(\<And>i. i < n \<Longrightarrow> f i = g i) \<Longrightarrow> (\<Sum>i\<leftarrow>[0..<n]. f i) = (\<Sum>i\<leftarrow>[0..<n]. (g i :: real))"
  by (rule arg_cong [where f = sum_list], rule map_cong) simp_all

lemma sum_list_upt_nonneg: "(\<And>i. i < n \<Longrightarrow> 0 \<le> f i) \<Longrightarrow> 0 \<le> (\<Sum>i\<leftarrow>[0..<n]. (f i :: real))"
  by (rule sum_list_nonneg) auto

lemma length_gradient [simp]: "length (gradient a x) = length (ATb a)"
  by (simp add: gradient_def Let_def)

lemma inv_fresh_direction:
  assumes "length x' = length (ATb a)" and "feasible (m_maxima a) x'"
  shows "MwPGP_inv a (x', gradient a x', map (phi_at a x' (gradient a x')) [0..<length (ATb a)])"
proof -
  have "0 \<le> (\<Sum>i\<leftarrow>[0..<length (ATb a)]. dot3 (gradient a x' ! i)
                 (map (phi_at a x' (gradient a x')) [0..<length (ATb a)] ! i))"
    by (rule sum_list_upt_nonneg) (simp add: phi_at_dot_nonneg)
  with assms show ?thesis by (simp add: MwPGP_inv_def)
qed

lemma projected_gradient_step_inv:
  assumes M: "\<forall>i<length (m_maxima a). 0 < m_maxima a ! i"
    and lenM: "length (m_maxima a) = length (ATb a)"
  shows "MwPGP_inv a (projected_gradient_step a x g)"
proof -
  let ?x' = "map (\<lambda>i. case x ! i of (x1, x2, x3) \<Rightarrow> case g ! i of (g1, g2, g3) \<Rightarrow>
                     projection_L2_balls (x1 - alpha a * g1) (x2 - alpha a * g2)
                                         (x3 - alpha a * g3) (m_maxima a ! i)) [0..<length (ATb a)]"
  have "feasible (m_maxima a) ?x'"
    unfolding feasible_iff lenM
  proof (intro allI impI)
    fix i assume i: "i < length (ATb a)"
    obtain x1 x2 x3 g1 g2 g3 where e: "x ! i = (x1, x2, x3)" "g ! i = (g1, g2, g3)"
      by (metis prod_cases3)
    from M i lenM have "0 < m_maxima a ! i" by simp
    from projection_feasible [OF this]
    show "case ?x' ! i of (x1, x2, x3) \<Rightarrow> sqrt (x1 * x1 + x2 * x2 + x3 * x3) \<le> m_maxima a ! i"
      using i by (simp add: e)
  qed
  then show ?thesis
    unfolding projected_gradient_step_def Let_def by (intro inv_fresh_direction) simp_all
qed

lemma mixed_step_inv:
  assumes M: "\<forall>i<length (m_maxima a). 0 < m_maxima a ! i"
    and lenM: "length (m_maxima a) = length (ATb a)"
  shows "MwPGP_inv a (mixed_step a x g p ATAp alpha_f)"
proof -
  let ?x' = "map (\<lambda>i. case x ! i of (x1, x2, x3) \<Rightarrow> case p ! i of (p1, p2, p3) \<Rightarrow>
                     case g ! i of (g1, g2, g3) \<Rightarrow> case ATAp ! i of (q1, q2, q3) \<Rightarrow>
                     projection_L2_balls
                       ((x1 - alpha_f * p1) - alpha a * (g1 - alpha_f * q1))
                       ((x2 - alpha_f * p2) - alpha a * (g2 - alpha_f * q2))
                       ((x3 - alpha_f * p3) - alpha a * (g3 - alpha_f * q3)) (m_maxima a ! i))
                [0..<length (ATb a)]"
  have "feasible (m_maxima a) ?x'"
    unfolding feasible_iff lenM
  proof (intro allI impI)
    fix i assume i: "i < length (ATb a)"
    obtain x1 x2 x3 g1 g2 g3 p1 p2 p3 q1 q2 q3 where
      e: "x ! i = (x1, x2, x3)" "g ! i = (g1, g2, g3)" "p ! i = (p1, p2, p3)" "ATAp ! i = (q1, q2, q3)"
      by (metis prod_cases3)
    from M i lenM have "0 < m_maxima a ! i" by simp
    from projection_feasible [OF this]
    show "case ?x' ! i of (x1, x2, x3) \<Rightarrow> sqrt (x1 * x1 + x2 * x2 + x3 * x3) \<le> m_maxima a ! i"
      using i by (simp add: e)
  qed
  then show ?thesis
    unfolding mixed_step_def Let_def by (intro inv_fresh_direction) simp_all
qed

lemma dot3_commute: "dot3 u v = dot3 v u"
  by (cases u; cases v) (simp add: prod_cases3 mult.commute split: prod.splits)

lemma dot3_cg_gradient:
  "dot3 (case gv of (g1, g2, g3) \<Rightarrow> case qv of (q1, q2, q3) \<Rightarrow>
            (g1 - t * q1, g2 - t * q2, g3 - t * q3)) w
     = dot3 gv w - t * dot3 qv w"
  by (cases gv; cases qv; cases w) (auto simp: algebra_simps)

lemma dot3_cg_direction:
  "dot3 u (case tv of (t1, t2, t3) \<Rightarrow> case pv of (p1, p2, p3) \<Rightarrow>
            (t1 - c * p1, t2 - c * p2, t3 - c * p3))
     = dot3 u tv - c * dot3 u pv"
  by (cases u; cases tv; cases pv) (auto simp: algebra_simps)

lemma sum_list_sub_scale:
  "(\<Sum>i\<leftarrow>xs. f i - c * g i) = (\<Sum>i\<leftarrow>xs. f i) - c * (\<Sum>i\<leftarrow>xs. (g i :: real))"
  by (induction xs) (simp_all add: algebra_simps)

lemma conjugate_gradient_step_inv:
  assumes inv: "MwPGP_inv a (x, g, p)"
    and lenM: "length (m_maxima a) = length (ATb a)"
    and clear: "clear_of_floor p"
    and pos: "0 < pATAp"
    and pATAp: "pATAp = (\<Sum>i\<leftarrow>[0..<length (ATb a)]. dot3 (p ! i) (ATAp ! i))"
    and small: "(\<Sum>i\<leftarrow>[0..<length (ATb a)]. dot3 (g ! i) (p ! i)) / pATAp < min_element af afs"
    and afs: "map (\<lambda>i. case x ! i of (x1, x2, x3) \<Rightarrow> case p ! i of (p1, p2, p3) \<Rightarrow>
               find_max_alphaf x1 x2 x3 p1 p2 p3 (m_maxima a ! i)) [0..<length (ATb a)] = af # afs"
  shows "MwPGP_inv a (conjugate_gradient_step a x g p ATAp
            ((\<Sum>i\<leftarrow>[0..<length (ATb a)]. dot3 (g ! i) (p ! i)) / pATAp) pATAp)"
proof -
  let ?N = "length (ATb a)"
  let ?gp = "(\<Sum>i\<leftarrow>[0..<?N]. dot3 (g ! i) (p ! i))"
  let ?t = "?gp / pATAp"
  let ?x' = "map (\<lambda>i. case x ! i of (x1, x2, x3) \<Rightarrow> case p ! i of (p1, p2, p3) \<Rightarrow>
                     (x1 + - ?t * p1, x2 + - ?t * p2, x3 + - ?t * p3)) [0..<?N]"
  let ?g' = "map (\<lambda>i. case g ! i of (g1, g2, g3) \<Rightarrow> case ATAp ! i of (q1, q2, q3) \<Rightarrow>
                     (g1 + - ?t * q1, g2 + - ?t * q2, g3 + - ?t * q3)) [0..<?N]"
  let ?gamma = "(\<Sum>i\<leftarrow>[0..<?N]. dot3 (phi_at a ?x' ?g' i) (ATAp ! i)) / pATAp"
  let ?p' = "map (\<lambda>i. case phi_at a ?x' ?g' i of (t1, t2, t3) \<Rightarrow> case p ! i of (p1, p2, p3) \<Rightarrow>
                 (t1 - ?gamma * p1, t2 - ?gamma * p2, t3 - ?gamma * p3)) [0..<?N]"
  from inv have lx: "length x = ?N" and lp: "length p = ?N" and feas: "feasible (m_maxima a) x"
    and gp0: "0 \<le> ?gp" by (simp_all add: MwPGP_inv_def)
  have t0: "0 \<le> ?t" using gp0 pos by simp
  have feas': "feasible (m_maxima a) ?x'"
    unfolding feasible_iff lenM
  proof (intro allI impI)
    fix i assume i: "i < ?N"
    obtain x1 x2 x3 p1 p2 p3 where e: "x ! i = (x1, x2, x3)" "p ! i = (p1, p2, p3)"
      by (metis prod_cases3)
    from feas i lenM have "case x ! i of (x1, x2, x3) \<Rightarrow>
        sqrt (x1 * x1 + x2 * x2 + x3 * x3) \<le> m_maxima a ! i"
      unfolding feasible_iff by simp
    then have f: "sqrt (x1 * x1 + x2 * x2 + x3 * x3) \<le> m_maxima a ! i"
      unfolding e by simp
    from clear i lp have c: "p1 * p1 + p2 * p2 + p3 * p3 > 1 / 10 ^ 20 \<or> (p1 = 0 \<and> p2 = 0 \<and> p3 = 0)"
      unfolding clear_of_floor_def using e(2) by fastforce
    have "(af # afs) ! i = find_max_alphaf x1 x2 x3 p1 p2 p3 (m_maxima a ! i)"
      unfolding afs [symmetric] using i by (simp add: e)
    moreover have "(af # afs) ! i \<in> set (af # afs)"
    proof -
      have "length (af # afs) = ?N" unfolding afs [symmetric] by simp
      with i show ?thesis using nth_mem by metis
    qed
    ultimately have "min_element af afs \<le> find_max_alphaf x1 x2 x3 p1 p2 p3 (m_maxima a ! i)"
      using min_element_le [of af afs] by auto
    with small have lt: "?t < find_max_alphaf x1 x2 x3 p1 p2 p3 (m_maxima a ! i)" by linarith
    from cg_step_feasible [OF f t0 lt c]
    show "case ?x' ! i of (x1, x2, x3) \<Rightarrow> sqrt (x1 * x1 + x2 * x2 + x3 * x3) \<le> m_maxima a ! i"
      using i by (simp add: e)
  qed
  define t where "t = ?t"
  define gamma where "gamma = ?gamma"
  have orth: "(\<Sum>i\<leftarrow>[0..<?N]. dot3 (?g' ! i) (p ! i)) = 0"
  proof -
    have "(\<Sum>i\<leftarrow>[0..<?N]. dot3 (?g' ! i) (p ! i))
            = (\<Sum>i\<leftarrow>[0..<?N]. dot3 (g ! i) (p ! i) - t * dot3 (p ! i) (ATAp ! i))"
      unfolding t_def [symmetric]
      by (rule sum_list_upt_cong) (simp add: dot3_cg_gradient dot3_commute [of "ATAp ! _"])
    also have "\<dots> = ?gp - t * pATAp" unfolding pATAp by (rule sum_list_sub_scale)
    also have "\<dots> = 0" unfolding t_def using pos by simp
    finally show ?thesis .
  qed
  have "(\<Sum>i\<leftarrow>[0..<?N]. dot3 (?g' ! i) (?p' ! i))
          = (\<Sum>i\<leftarrow>[0..<?N]. dot3 (?g' ! i) (phi_at a ?x' ?g' i) - ?gamma * dot3 (?g' ! i) (p ! i))"
    unfolding gamma_def [symmetric]
    by (rule sum_list_upt_cong) (simp add: dot3_cg_direction)
  also have "\<dots> = (\<Sum>i\<leftarrow>[0..<?N]. dot3 (?g' ! i) (phi_at a ?x' ?g' i))
                    - ?gamma * (\<Sum>i\<leftarrow>[0..<?N]. dot3 (?g' ! i) (p ! i))"
    by (rule sum_list_sub_scale)
  also have "\<dots> = (\<Sum>i\<leftarrow>[0..<?N]. dot3 (?g' ! i) (phi_at a ?x' ?g' i))" unfolding orth by simp
  finally have "(\<Sum>i\<leftarrow>[0..<?N]. dot3 (?g' ! i) (?p' ! i))
                  = (\<Sum>i\<leftarrow>[0..<?N]. dot3 (?g' ! i) (phi_at a ?x' ?g' i))" .
  moreover have "0 \<le> (\<Sum>i\<leftarrow>[0..<?N]. dot3 (?g' ! i) (phi_at a ?x' ?g' i))"
    by (rule sum_list_upt_nonneg) (rule phi_at_dot_nonneg)
  ultimately have gp': "0 \<le> (\<Sum>i\<leftarrow>[0..<?N]. dot3 (?g' ! i) (?p' ! i))" by simp
  show ?thesis
    unfolding conjugate_gradient_step_def Let_def MwPGP_inv_def
    using feas' gp' by simp
qed

lemma MwPGP_init_inv:
  assumes "length (m0 a) = length (ATb a)" and "feasible (m_maxima a) (m0 a)"
  shows "MwPGP_inv a (MwPGP_init a)"
  unfolding MwPGP_init_def Let_def using assms by (intro inv_fresh_direction)

lemma MwPGP_step_inv:
  assumes rows: "\<forall>row\<in>set (A_obj a). length row = 3 * length (ATb a)"
    and lenM: "length (m_maxima a) = length (ATb a)"
    and M: "\<forall>i<length (m_maxima a). 0 < m_maxima a ! i"
    and psd: "0 \<le> reg_l2 a + 1 / (2 * nu a)"
    and inv: "MwPGP_inv a (x, g, p)"
    and clear: "clear_of_floor p"
    and step: "MwPGP_step a (x, g, p) = Inr s'"
  shows "MwPGP_inv a s'"
proof -
  let ?N = "length (ATb a)"
  let ?ATAp = "Q_times a p"
  let ?gp = "(\<Sum>i\<leftarrow>[0..<?N]. dot3 (g ! i) (p ! i))"
  let ?pATAp = "(\<Sum>i\<leftarrow>[0..<?N]. dot3 (p ! i) (?ATAp ! i))"
  let ?afs = "map (\<lambda>i. case x ! i of (x1, x2, x3) \<Rightarrow> case p ! i of (p1, p2, p3) \<Rightarrow>
               find_max_alphaf x1 x2 x3 p1 p2 p3 (m_maxima a ! i)) [0..<?N]"
  from inv have lp: "length p = ?N" by (simp add: MwPGP_inv_def)
  from Q_times_psd(1) [OF rows lp psd] have nonneg: "0 \<le> ?pATAp" .
  from step obtain af afs where afs: "?afs = af # afs"
    by (cases ?afs) (simp_all add: MwPGP_step_def Let_def)
  from step afs consider
      (mixed) "s' = mixed_step a x g p ?ATAp (min_element af afs)"
    | (projected) "s' = projected_gradient_step a x g"
    | (cg) "?pATAp \<noteq> 0" "?gp / ?pATAp < min_element af afs"
           "s' = conjugate_gradient_step a x g p ?ATAp (?gp / ?pATAp) ?pATAp"
    by (simp add: MwPGP_step_def Let_def split: if_splits)
  then show ?thesis
  proof cases
    case mixed
    then show ?thesis using mixed_step_inv [OF M lenM] by simp
  next
    case projected
    then show ?thesis using projected_gradient_step_inv [OF M lenM] by simp
  next
    case cg
    from cg(1) nonneg have pos: "0 < ?pATAp" by simp
    show ?thesis unfolding cg(3)
      by (rule conjugate_gradient_step_inv [OF inv lenM clear pos refl cg(2) afs])
  qed
qed

lemma MwPGP_iterates_inv:
  assumes rows: "\<forall>row\<in>set (A_obj a). length row = 3 * length (ATb a)"
    and len0: "length (m0 a) = length (ATb a)"
    and lenM: "length (m_maxima a) = length (ATb a)"
    and M: "\<forall>i<length (m_maxima a). 0 < m_maxima a ! i"
    and feas0: "feasible (m_maxima a) (m0 a)"
    and psd: "0 \<le> reg_l2 a + 1 / (2 * nu a)"
  shows "MwPGP_iterates a n = Inr s
     \<Longrightarrow> (\<And>m x' g' p'. m < n \<Longrightarrow> MwPGP_iterates a m = Inr (x', g', p') \<Longrightarrow> clear_of_floor p')
     \<Longrightarrow> MwPGP_inv a s"
proof (induction n arbitrary: s)
  case 0
  then show ?case using MwPGP_init_inv [OF len0 feas0] by simp
next
  case (Suc n)
  from Suc.prems(1) obtain s0 where s0: "MwPGP_iterates a n = Inr s0" and st: "MwPGP_step a s0 = Inr s"
    by (auto split: sum.splits)
  obtain x g p where s0e: "s0 = (x, g, p)" by (cases s0) auto
  have "MwPGP_inv a s0" by (rule Suc.IH [OF s0]) (rule Suc.prems(2), simp_all)
  moreover have "clear_of_floor p" by (rule Suc.prems(2) [of n]) (simp_all add: s0 s0e)
  ultimately show ?case
    using MwPGP_step_inv [OF rows lenM M psd _ _ st [unfolded s0e]] unfolding s0e by blast
qed

lemma MwPGP_loop_iterate:
  "MwPGP_loop a v k s h = Inr (x, h') \<Longrightarrow> MwPGP_iterates a k = Inr s
   \<Longrightarrow> \<exists>n g p. MwPGP_iterates a n = Inr (x, g, p) \<and> (n \<le> max_iter a \<or> n = k)"
proof (induction a v k s h rule: MwPGP_loop.induct)
  case (1 a v k s h)
  show ?case
  proof (cases "k < max_iter a")
    case False
    with "1.prems"(1) have "x = fst s" by (simp add: MwPGP_loop.simps)
    with "1.prems"(2) show ?thesis by (cases s) auto
  next
    case True
    from "1.prems"(1) True obtain s1 where st: "MwPGP_step a s = Inr s1"
      by (subst (asm) MwPGP_loop.simps) (auto split: sum.splits)
    from "1.prems"(1) True st obtain stop h1 where sa: "MwPGP_sample a v k (fst s1) h = Inr (stop, h1)"
      by (subst (asm) MwPGP_loop.simps) (auto split: sum.splits)
    have it: "MwPGP_iterates a (k + 1) = Inr s1" using "1.prems"(2) st by simp
    show ?thesis
    proof (cases "stop \<or> x_sum (fst s1) (fst s) (length (ATb a)) < epsilon a")
      case True
      with "1.prems"(1) \<open>k < max_iter a\<close> st sa have "x = fst s1"
        by (subst (asm) MwPGP_loop.simps) (auto split: if_splits)
      with it True \<open>k < max_iter a\<close> show ?thesis
        by (cases s1) (auto intro!: exI [of _ "k + 1"])
    next
      case False
      with "1.prems"(1) \<open>k < max_iter a\<close> st sa
      have r: "MwPGP_loop a v (k + 1) s1 h1 = Inr (x, h')"
        by (subst (asm) MwPGP_loop.simps) (auto split: if_splits)
      from False have ns: "\<not> stop" and nc: "\<not> x_sum (fst s1) (fst s) (length (ATb a)) < epsilon a"
        by simp_all
      from "1.IH" [OF \<open>k < max_iter a\<close> st _ _ ns nc r it] sa
      obtain n g p where "MwPGP_iterates a n = Inr (x, g, p)" "n \<le> max_iter a \<or> n = k + 1"
        by auto
      with \<open>k < max_iter a\<close> show ?thesis by (intro exI [of _ n]) auto
    qed
  qed
qed

subsection \<open>MwPGP: what \<^verbatim>\<open>verbose\<close> changes\<close>

lemma MwPGP_sample_quiet: "MwPGP_sample a False k x h = Inr (False, h)"
  by (simp add: MwPGP_sample_def)

lemma print_MwPGP_R2_nonneg:
  assumes "print_iter h < length (R2_history h)"
  shows "0 \<le> R2_history (print_MwPGP a x h) ! print_iter (print_MwPGP a x h)"
    and "length (R2_history (print_MwPGP a x h)) = length (R2_history h)"
proof -
  let ?R = "mat_vec (A_obj a) (flat x)"
  have "0 \<le> (\<Sum>i\<leftarrow>[0..<length (A_obj a)]. (?R ! i - b_obj a ! i) * (?R ! i - b_obj a ! i))"
    by (rule sum_list_upt_nonneg) simp
  then show "0 \<le> R2_history (print_MwPGP a x h) ! print_iter (print_MwPGP a x h)"
    using assms by (simp add: print_MwPGP_def Let_def)
  show "length (R2_history (print_MwPGP a x h)) = length (R2_history h)"
    by (simp add: print_MwPGP_def Let_def)
qed

lemma MwPGP_sample_no_break:
  assumes "MwPGP_sample a True k x h = Inr (stop, h1)" and "min_fb a \<le> 0"
    and "length (R2_history h) = 21"
  shows "\<not> stop" and "length (R2_history h1) = 21"
proof -
  show "\<not> stop"
  proof
    assume stop
    with assms(1) have lt: "print_iter h < 21"
      and b: "R2_history (print_MwPGP a x h) ! print_iter (print_MwPGP a x h) < min_fb a"
      by (auto simp: MwPGP_sample_def Let_def split: if_splits)
    from lt assms(3) have "print_iter h < length (R2_history h)" by simp
    from print_MwPGP_R2_nonneg(1) [OF this, of a x] b assms(2) show False by linarith
  qed
  from assms(1,3) show "length (R2_history h1) = 21"
    by (auto simp: MwPGP_sample_def Let_def print_MwPGP_def split: if_splits)
qed

lemma MwPGP_loop_quiet_same:
  "MwPGP_loop a v k s h = Inr (x, h') \<Longrightarrow> v \<Longrightarrow> min_fb a \<le> 0 \<Longrightarrow> length (R2_history h) = 21
   \<Longrightarrow> MwPGP_loop a False k s h2 = Inr (x, h2)"
proof (induction a v k s h rule: MwPGP_loop.induct)
  case (1 a v k s h)
  show ?case
  proof (cases "k < max_iter a")
    case False
    with "1.prems"(1) have "x = fst s" by (simp add: MwPGP_loop.simps)
    with False show ?thesis by (simp add: MwPGP_loop.simps)
  next
    case True
    from "1.prems"(1) True obtain s1 where st: "MwPGP_step a s = Inr s1"
      by (subst (asm) MwPGP_loop.simps) (auto split: sum.splits)
    from "1.prems"(1) True st obtain stop h1 where sa: "MwPGP_sample a v k (fst s1) h = Inr (stop, h1)"
      by (subst (asm) MwPGP_loop.simps) (auto split: sum.splits)
    from MwPGP_sample_no_break [OF sa [unfolded eqTrueI [OF "1.prems"(2)]] "1.prems"(3,4)]
    have ns: "\<not> stop" and len: "length (R2_history h1) = 21" .
    show ?thesis
    proof (cases "x_sum (fst s1) (fst s) (length (ATb a)) < epsilon a")
      case True
      with "1.prems"(1) \<open>k < max_iter a\<close> st sa ns have "x = fst s1"
        by (subst (asm) MwPGP_loop.simps) (auto split: if_splits)
      with True \<open>k < max_iter a\<close> st show ?thesis
        by (subst MwPGP_loop.simps) (simp add: MwPGP_sample_quiet)
    next
      case False
      with "1.prems"(1) \<open>k < max_iter a\<close> st sa ns
      have r: "MwPGP_loop a v (k + 1) s1 h1 = Inr (x, h')"
        by (subst (asm) MwPGP_loop.simps) (auto split: if_splits)
      from "1.IH" [OF \<open>k < max_iter a\<close> st _ _ ns False r "1.prems"(2,3) len] sa
      have "MwPGP_loop a False (k + 1) s1 h2 = Inr (x, h2)" by simp
      with False \<open>k < max_iter a\<close> st show ?thesis
        by (subst MwPGP_loop.simps) (simp add: MwPGP_sample_quiet)
    qed
  qed
qed

text \<open>
  C1, as the source has it. The test \<^verbatim>\<open>R2_history(print_iter) < min_fb\<close> that leaves the loop
  sits inside the \<^verbatim>\<open>verbose\<close> block, and the sampled \<open>R\<^sup>2\<close> is never negative. So when
  \<^verbatim>\<open>min_fb\<close> is not positive and the verbose run returns, the run without \<^verbatim>\<open>verbose\<close> returns
  the same final iterate, with its three histories left at zero.
\<close>

theorem MwPGP_verbose_same_iterate:
  assumes "min_fb a \<le> 0" and "MwPGP_algorithm a True = Inr (oh, rh, mh, x)"
  shows "MwPGP_algorithm a False
           = Inr (replicate 21 0, replicate 21 0, replicate 21 (replicate (length (ATb a)) (0, 0, 0)), x)"
proof -
  from assms(2) obtain h' where
    r: "MwPGP_loop a True 0 (MwPGP_init a) (MwPGP_history0 a) = Inr (x, h')"
    by (auto simp: MwPGP_algorithm_def split: sum.splits)
  have "length (R2_history (MwPGP_history0 a)) = 21" by (simp add: MwPGP_history0_def)
  from MwPGP_loop_quiet_same [OF r _ assms(1) this, of "MwPGP_history0 a"]
  show ?thesis by (simp add: MwPGP_algorithm_def MwPGP_history0_def)
qed

subsection \<open>MwPGP: feasibility of the iterates\<close>

text \<open>
  Where the invariant holds. Let every row of \<open>A\<close> have \<open>3 N\<close> entries, \<open>m0\<close> and \<open>M\<close> have
  \<open>N\<close> entries, every \<open>M\<^sub>i\<close> be positive, \<open>m0\<close> be feasible and \<open>\<lambda>\<^sub>2 + 1 / (2 \<nu>) \<ge> 0\<close>. Then
  the iterate after \<open>n\<close> steps is feasible, with no slack, as long as every direction
  \<open>p\<close> used by the earlier steps is clear of the floor of \<^verbatim>\<open>find_max_alphaf\<close>; and the
  \<open>x\<close> that \<^verbatim>\<open>MwPGP_algorithm\<close> returns is feasible when that holds for every step before
  \<^verbatim>\<open>max_iter\<close>.
\<close>

theorem MwPGP_feasible_iterates:
  assumes rows: "\<forall>row\<in>set (A_obj a). length row = 3 * length (ATb a)"
    and len0: "length (m0 a) = length (ATb a)"
    and lenM: "length (m_maxima a) = length (ATb a)"
    and M: "\<forall>i<length (m_maxima a). 0 < m_maxima a ! i"
    and feas0: "feasible (m_maxima a) (m0 a)"
    and psd: "0 \<le> reg_l2 a + 1 / (2 * nu a)"
  shows "(\<forall>n x g p. MwPGP_iterates a n = Inr (x, g, p)
            \<and> (\<forall>m<n. \<forall>x' g' p'. MwPGP_iterates a m = Inr (x', g', p') \<longrightarrow> clear_of_floor p')
            \<longrightarrow> feasible (m_maxima a) x)
       \<and> (\<forall>verbose oh rh mh x. MwPGP_algorithm a verbose = Inr (oh, rh, mh, x)
            \<and> (\<forall>m<max_iter a. \<forall>x' g' p'. MwPGP_iterates a m = Inr (x', g', p') \<longrightarrow> clear_of_floor p')
            \<longrightarrow> feasible (m_maxima a) x)"
proof (intro conjI allI impI)
  fix n x g p
  assume h: "MwPGP_iterates a n = Inr (x, g, p)
            \<and> (\<forall>m<n. \<forall>x' g' p'. MwPGP_iterates a m = Inr (x', g', p') \<longrightarrow> clear_of_floor p')"
  then have "MwPGP_inv a (x, g, p)"
    by (intro MwPGP_iterates_inv [OF rows len0 lenM M feas0 psd, of n]) blast+
  then show "feasible (m_maxima a) x" by (simp add: MwPGP_inv_def)
next
  fix verbose oh rh mh x
  assume h: "MwPGP_algorithm a verbose = Inr (oh, rh, mh, x)
            \<and> (\<forall>m<max_iter a. \<forall>x' g' p'. MwPGP_iterates a m = Inr (x', g', p') \<longrightarrow> clear_of_floor p')"
  then obtain h' where "MwPGP_loop a verbose 0 (MwPGP_init a) (MwPGP_history0 a) = Inr (x, h')"
    by (auto simp: MwPGP_algorithm_def split: sum.splits)
  from MwPGP_loop_iterate [OF this]
  obtain n g p where it: "MwPGP_iterates a n = Inr (x, g, p)" and n: "n \<le> max_iter a \<or> n = 0"
    by auto
  have "MwPGP_inv a (x, g, p)"
  proof (rule MwPGP_iterates_inv [OF rows len0 lenM M feas0 psd it])
    fix m x' g' p'
    assume "m < n" and "MwPGP_iterates a m = Inr (x', g', p')"
    with n h show "clear_of_floor p'" by (meson less_le_trans not_less_zero)
  qed
  then show "feasible (m_maxima a) x" by (simp add: MwPGP_inv_def)
qed

lemma find_max_alphaf_floor:
  "p1 * p1 + p2 * p2 + p3 * p3 \<le> 1 / 10 ^ 20 \<Longrightarrow> find_max_alphaf x1 x2 x3 p1 p2 p3 M = 10 ^ 100"
  by (simp add: find_max_alphaf_def Let_def)

lemma grpg_interior:
  "\<bar>x1 * x1 + x2 * x2 + x3 * x3 - M * M\<bar> > 1 / 10 ^ 8 + 1 / 10 ^ 5 * M * M
   \<Longrightarrow> g_reduced_projected_gradient x1 x2 x3 g1 g2 g3 al M = (g1, g2, g3)"
  by (simp add: g_reduced_projected_gradient_def phi_MwPGP_def beta_tilde_def Let_def)

text \<open>
  C3 on the code. \<^verbatim>\<open>find_max_alphaf\<close> is there to bound the conjugate-gradient step, which is
  not projected, but for a direction with \<open>0 < \<parallel>p\<parallel>\<^sup>2 \<le> 10\<^sup>-\<^sup>2\<^sup>0\<close> it returns the sentinel
  \<open>10\<^sup>1\<^sup>0\<^sup>0\<close> and bounds nothing. One dipole with \<open>M = 1\<close>, starting at the origin, with
  \<open>p = (10\<^sup>-\<^sup>1\<^sup>1, 0, 0)\<close>: the step length \<open>\<alpha>\<^sub>c\<^sub>g = 5 \<cdot> 10\<^sup>1\<^sup>1\<close> is below the sentinel, the
  conjugate-gradient step is taken, and the iterate after the first iteration, which is
  also the result, is \<open>(-5, 0, 0)\<close>: outside the unit ball, and outside the ball with the
  relative slack \<open>10\<^sup>-\<^sup>6\<close>.
\<close>

theorem MwPGP_cg_step_leaves_ball:
  "find_max_alphaf 0 0 0 (1 / 10 ^ 11) 0 0 1 = 10 ^ 100
   \<and> MwPGP_algorithm \<lparr>A_obj = [[1 / 10 ^ 6, 0, 0]], b_obj = [- (1 / 10 ^ 5)],
       ATb = [(- (1 / 10 ^ 11), 0, 0)], m_proxy = [(0, 0, 0)], m0 = [(0, 0, 0)], m_maxima = [1],
       alpha = 1, nu = 10 ^ 12, epsilon = 1 / 10 ^ 6, reg_l0 = 0, reg_l1 = 0, reg_l2 = 0,
       max_iter = 1, min_fb = 0\<rparr> False
     = Inr (replicate 21 0, replicate 21 0, replicate 21 [(0, 0, 0)], [(- 5, 0, 0)])
   \<and> feasible [1] [(0, 0, 0)]
   \<and> \<not> feasible [1 + 1 / 10 ^ 6] [(- 5, 0, 0)]"
proof -
  let ?a = "\<lparr>A_obj = [[1 / 10 ^ 6, 0, 0]], b_obj = [- (1 / 10 ^ 5)],
       ATb = [(- (1 / 10 ^ 11), 0, 0)], m_proxy = [(0, 0, 0)], m0 = [(0, 0, 0)], m_maxima = [1],
       alpha = 1, nu = 10 ^ 12, epsilon = 1 / 10 ^ 6, reg_l0 = 0, reg_l1 = 0, reg_l2 = 0,
       max_iter = 1, min_fb = 0\<rparr>"
  have Q: "\<And>t. Q_times ?a [(t, 0, 0)] = [(2 * t / 10 ^ 12, 0, 0)]"
    by (simp add: Q_times_def mat_vec_def dotl_def replicate_numeral)
  have i: "MwPGP_init ?a = ([(0, 0, 0)], [(1 / 10 ^ 11, 0, 0)], [(1 / 10 ^ 11, 0, 0)])"
    using Q [of 0] by (simp add: MwPGP_init_def gradient_def ATb_rs_def phi_at_def phi_MwPGP_def Let_def)
  have f: "find_max_alphaf 0 0 0 (1 / 10 ^ 11) 0 0 1 = 10 ^ 100"
    by (rule find_max_alphaf_floor) simp
  have r: "g_reduced_projected_gradient 0 0 0 (1 / 10 ^ 11) 0 0 1 1 = (1 / 10 ^ 11, 0, 0)"
    by (rule grpg_interior) simp
  have s: "MwPGP_step ?a ([(0, 0, 0)], [(1 / 10 ^ 11, 0, 0)], [(1 / 10 ^ 11, 0, 0)])
             = Inr ([(- 5, 0, 0)], [(0, 0, 0)], [(0, 0, 0)])"
    using Q [of "1 / 10 ^ 11"] f r
    by (simp add: MwPGP_step_def conjugate_gradient_step_def phi_at_def phi_MwPGP_def
          min_element_def Let_def)
  have run: "MwPGP_algorithm ?a False
     = Inr (replicate 21 0, replicate 21 0, replicate 21 [(0, 0, 0)], [(- 5, 0, 0)])"
    unfolding MwPGP_algorithm_def i using s
    by (subst MwPGP_loop.simps, subst MwPGP_loop.simps)
       (simp add: MwPGP_sample_def x_sum_def MwPGP_history0_def)
  have f0: "feasible [1] [(0, 0, 0)]" by (simp add: feasible_iff)
  have "sqrt ((- 5) * (- 5) + 0 * 0 + 0 * 0) = (5::real)"
    using real_sqrt_abs2 [of "5::real"] by simp
  then have f1: "\<not> feasible [1 + 1 / 10 ^ 6] [(- 5, 0, 0)]" by (simp add: feasible_iff)
  from f run f0 f1 show ?thesis by blast
qed

subsection \<open>MwPGP: a run on one dipole\<close>

text \<open>Evaluation of the example used below: one dipole, one grid point.\<close>

lemma example_Q_times:
  "Q_times \<lparr>A_obj = [[1, 0, 0]], b_obj = [0], ATb = [(0, 0, 0)], m_proxy = [(0, 0, 0)],
       m0 = [(1, 0, 0)], m_maxima = [1], alpha = 1 / 4, nu = 1, epsilon = e,
       reg_l0 = 0, reg_l1 = 0, reg_l2 = 0, max_iter = n, min_fb = f\<rparr> [(t, 0, 0)] = [(2 * t, 0, 0)]"
  by (simp add: Q_times_def mat_vec_def dotl_def replicate_numeral)

lemma example_gradient:
  "gradient \<lparr>A_obj = [[1, 0, 0]], b_obj = [0], ATb = [(0, 0, 0)], m_proxy = [(0, 0, 0)],
       m0 = [(1, 0, 0)], m_maxima = [1], alpha = 1 / 4, nu = 1, epsilon = e,
       reg_l0 = 0, reg_l1 = 0, reg_l2 = 0, max_iter = n, min_fb = f\<rparr> [(t, 0, 0)] = [(2 * t, 0, 0)]"
  by (simp add: gradient_def example_Q_times ATb_rs_def)

lemma example_init:
  "MwPGP_init \<lparr>A_obj = [[1, 0, 0]], b_obj = [0], ATb = [(0, 0, 0)], m_proxy = [(0, 0, 0)],
       m0 = [(1, 0, 0)], m_maxima = [1], alpha = 1 / 4, nu = 1, epsilon = e,
       reg_l0 = 0, reg_l1 = 0, reg_l2 = 0, max_iter = n, min_fb = f\<rparr>
     = ([(1, 0, 0)], [(2, 0, 0)], [(0, 0, 0)])"
  using example_gradient [of e n f 1] by (simp add: MwPGP_init_def phi_at_def phi_MwPGP_def Let_def)

lemma example_step0:
  "MwPGP_step \<lparr>A_obj = [[1, 0, 0]], b_obj = [0], ATb = [(0, 0, 0)], m_proxy = [(0, 0, 0)],
       m0 = [(1, 0, 0)], m_maxima = [1], alpha = 1 / 4, nu = 1, epsilon = e,
       reg_l0 = 0, reg_l1 = 0, reg_l2 = 0, max_iter = n, min_fb = f\<rparr>
     ([(1, 0, 0)], [(2, 0, 0)], [(0, 0, 0)])
   = Inr ([(1 / 2, 0, 0)], [(1, 0, 0)], [(1, 0, 0)])"
proof -
  have a: "find_max_alphaf 1 0 0 0 0 0 1 = 10 ^ 100"
    by (rule find_max_alphaf_floor) simp
  have r: "g_reduced_projected_gradient 1 0 0 2 0 0 (1 / 4) 1 = (2, 0, 0)"
    by (simp add: g_reduced_projected_gradient_def phi_MwPGP_def beta_tilde_def)
  have p: "projection_L2_balls (1 / 2) 0 0 1 = (1 / 2, 0, 0)"
    by (simp add: projection_L2_balls_def real_sqrt_divide)
  show ?thesis
    using example_Q_times [of e n f 0] example_gradient [of e n f "1 / 2"] a r p
    by (simp add: MwPGP_step_def projected_gradient_step_def phi_at_def phi_MwPGP_def
          min_element_def Let_def)
qed

lemma example_step1:
  "MwPGP_step \<lparr>A_obj = [[1, 0, 0]], b_obj = [0], ATb = [(0, 0, 0)], m_proxy = [(0, 0, 0)],
       m0 = [(1, 0, 0)], m_maxima = [1], alpha = 1 / 4, nu = 1, epsilon = e,
       reg_l0 = 0, reg_l1 = 0, reg_l2 = 0, max_iter = n, min_fb = f\<rparr>
     ([(1 / 2, 0, 0)], [(1, 0, 0)], [(1, 0, 0)])
   = Inr ([(0, 0, 0)], [(0, 0, 0)], [(0, 0, 0)])"
proof -
  have a: "find_max_alphaf (1 / 2) 0 0 1 0 0 1 = 3 / 2"
    by (simp add: find_max_alphaf_def)
  have r: "g_reduced_projected_gradient (1 / 2) 0 0 1 0 0 (1 / 4) 1 = (1, 0, 0)"
    by (rule grpg_interior) simp
  show ?thesis
    using example_Q_times [of e n f 1] a r
    by (simp add: MwPGP_step_def conjugate_gradient_step_def phi_at_def phi_MwPGP_def
          min_element_def Let_def)
qed

lemma example_step2:
  "MwPGP_step \<lparr>A_obj = [[1, 0, 0]], b_obj = [0], ATb = [(0, 0, 0)], m_proxy = [(0, 0, 0)],
       m0 = [(1, 0, 0)], m_maxima = [1], alpha = 1 / 4, nu = 1, epsilon = e,
       reg_l0 = 0, reg_l1 = 0, reg_l2 = 0, max_iter = n, min_fb = f\<rparr>
     ([(0, 0, 0)], [(0, 0, 0)], [(0, 0, 0)])
   = Inr ([(0, 0, 0)], [(0, 0, 0)], [(0, 0, 0)])"
proof -
  have a: "find_max_alphaf 0 0 0 0 0 0 1 = 10 ^ 100"
    by (rule find_max_alphaf_floor) simp
  have r: "g_reduced_projected_gradient 0 0 0 0 0 0 (1 / 4) 1 = (0, 0, 0)"
    by (rule grpg_interior) simp
  have p: "projection_L2_balls 0 0 0 1 = (0, 0, 0)"
    by (simp add: projection_L2_balls_def)
  show ?thesis
    using example_Q_times [of e n f 0] example_gradient [of e n f 0] a r p
    by (simp add: MwPGP_step_def mixed_step_def phi_at_def phi_MwPGP_def
          min_element_def Let_def)
qed

lemma example_print:
  "print_MwPGP \<lparr>A_obj = [[1, 0, 0]], b_obj = [0], ATb = [(0, 0, 0)], m_proxy = [(0, 0, 0)],
       m0 = [(1, 0, 0)], m_maxima = [1], alpha = 1 / 4, nu = 1, epsilon = e,
       reg_l0 = 0, reg_l1 = 0, reg_l2 = 0, max_iter = n, min_fb = f\<rparr> [(t, 0, 0)] h
   = h\<lparr>m_history := (m_history h)[print_iter h := [(t, 0, 0)]],
       objective_history := (objective_history h)[print_iter h := t * t],
       R2_history := (R2_history h)[print_iter h := t * t / 2]\<rparr>"
  by (simp add: print_MwPGP_def mat_vec_def dotl_def Let_def)

lemmas example_eval = example_init example_step0 example_step1 example_step2 example_print
  MwPGP_sample_def x_sum_def MwPGP_history0_def replicate_numeral list_update_numeral

text \<open>With \<^verbatim>\<open>min_fb = 1\<close> the verbose run leaves the loop at the first sample, where
  \<open>R\<^sup>2 = 1 / 8\<close>, and returns \<open>(1 / 2, 0, 0)\<close>; the run without \<^verbatim>\<open>verbose\<close> goes on to the
  stationary point \<open>(0, 0, 0)\<close>.\<close>

theorem MwPGP_verbose_changes_iterate:
  "MwPGP_algorithm \<lparr>A_obj = [[1, 0, 0]], b_obj = [0], ATb = [(0, 0, 0)], m_proxy = [(0, 0, 0)],
       m0 = [(1, 0, 0)], m_maxima = [1], alpha = 1 / 4, nu = 1, epsilon = 1 / 1000,
       reg_l0 = 0, reg_l1 = 0, reg_l2 = 0, max_iter = 20, min_fb = 1\<rparr> True
     = Inr ((1 / 4) # replicate 20 0, (1 / 8) # replicate 20 0,
            [(1 / 2, 0, 0)] # replicate 20 [(0, 0, 0)], [(1 / 2, 0, 0)])
   \<and> MwPGP_algorithm \<lparr>A_obj = [[1, 0, 0]], b_obj = [0], ATb = [(0, 0, 0)], m_proxy = [(0, 0, 0)],
       m0 = [(1, 0, 0)], m_maxima = [1], alpha = 1 / 4, nu = 1, epsilon = 1 / 1000,
       reg_l0 = 0, reg_l1 = 0, reg_l2 = 0, max_iter = 20, min_fb = 1\<rparr> False
     = Inr (replicate 21 0, replicate 21 0, replicate 21 [(0, 0, 0)], [(0, 0, 0)])"
  by (simp add: MwPGP_algorithm_def MwPGP_loop.simps example_eval)

text \<open>The same input with \<^verbatim>\<open>min_fb = 0\<close>: both runs return \<open>(0, 0, 0)\<close>.\<close>

theorem MwPGP_verbose_same_iterate_witness:
  "min_fb \<lparr>A_obj = [[1, 0, 0]], b_obj = [0], ATb = [(0, 0, 0)], m_proxy = [(0, 0, 0)],
       m0 = [(1, 0, 0)], m_maxima = [1], alpha = 1 / 4, nu = 1, epsilon = 1 / 1000,
       reg_l0 = 0, reg_l1 = 0, reg_l2 = 0, max_iter = 20, min_fb = 0\<rparr> \<le> 0
   \<and> MwPGP_algorithm \<lparr>A_obj = [[1, 0, 0]], b_obj = [0], ATb = [(0, 0, 0)], m_proxy = [(0, 0, 0)],
       m0 = [(1, 0, 0)], m_maxima = [1], alpha = 1 / 4, nu = 1, epsilon = 1 / 1000,
       reg_l0 = 0, reg_l1 = 0, reg_l2 = 0, max_iter = 20, min_fb = 0\<rparr> True
     = Inr ((1 / 4) # replicate 20 0, (1 / 8) # replicate 20 0,
            [(1 / 2, 0, 0)] # replicate 20 [(0, 0, 0)], [(0, 0, 0)])
   \<and> MwPGP_algorithm \<lparr>A_obj = [[1, 0, 0]], b_obj = [0], ATb = [(0, 0, 0)], m_proxy = [(0, 0, 0)],
       m0 = [(1, 0, 0)], m_maxima = [1], alpha = 1 / 4, nu = 1, epsilon = 1 / 1000,
       reg_l0 = 0, reg_l1 = 0, reg_l2 = 0, max_iter = 20, min_fb = 0\<rparr> False
     = Inr (replicate 21 0, replicate 21 0, replicate 21 [(0, 0, 0)], [(0, 0, 0)])"
proof -
  let ?a = "\<lparr>A_obj = [[1, 0, 0]], b_obj = [0], ATb = [(0, 0, 0)], m_proxy = [(0, 0, 0)],
       m0 = [(1, 0, 0)], m_maxima = [1], alpha = 1 / 4, nu = 1, epsilon = 1 / 1000,
       reg_l0 = 0, reg_l1 = 0, reg_l2 = 0, max_iter = 20, min_fb = 0\<rparr>"
  have m: "min_fb ?a \<le> 0" by simp
  have v: "MwPGP_algorithm ?a True
     = Inr ((1 / 4) # replicate 20 0, (1 / 8) # replicate 20 0,
            [(1 / 2, 0, 0)] # replicate 20 [(0, 0, 0)], [(0, 0, 0)])"
    by (simp add: MwPGP_algorithm_def MwPGP_loop.simps example_eval)
  from MwPGP_verbose_same_iterate [OF m v]
  have "MwPGP_algorithm ?a False
     = Inr (replicate 21 0, replicate 21 0, replicate 21 [(0, 0, 0)], [(0, 0, 0)])"
    by simp
  with m v show ?thesis by blast
qed

text \<open>Three iterations from \<open>m0 = (1, 0, 0)\<close>: the directions are \<open>(0, 0, 0)\<close>, \<open>(1, 0, 0)\<close>
  and \<open>(0, 0, 0)\<close>, all clear of the floor, and the iterates stay in the unit ball.\<close>

theorem MwPGP_feasible_iterates_witness:
  "feasible (m_maxima \<lparr>A_obj = [[1, 0, 0]], b_obj = [0], ATb = [(0, 0, 0)], m_proxy = [(0, 0, 0)],
       m0 = [(1, 0, 0)], m_maxima = [1], alpha = 1 / 4, nu = 1, epsilon = 1 / 1000,
       reg_l0 = 0, reg_l1 = 0, reg_l2 = 0, max_iter = 3, min_fb = 0\<rparr>) [(1, 0, 0)]
   \<and> MwPGP_iterates \<lparr>A_obj = [[1, 0, 0]], b_obj = [0], ATb = [(0, 0, 0)], m_proxy = [(0, 0, 0)],
       m0 = [(1, 0, 0)], m_maxima = [1], alpha = 1 / 4, nu = 1, epsilon = 1 / 1000,
       reg_l0 = 0, reg_l1 = 0, reg_l2 = 0, max_iter = 3, min_fb = 0\<rparr> 2
     = Inr ([(0, 0, 0)], [(0, 0, 0)], [(0, 0, 0)])
   \<and> MwPGP_algorithm \<lparr>A_obj = [[1, 0, 0]], b_obj = [0], ATb = [(0, 0, 0)], m_proxy = [(0, 0, 0)],
       m0 = [(1, 0, 0)], m_maxima = [1], alpha = 1 / 4, nu = 1, epsilon = 1 / 1000,
       reg_l0 = 0, reg_l1 = 0, reg_l2 = 0, max_iter = 3, min_fb = 0\<rparr> False
     = Inr (replicate 21 0, replicate 21 0, replicate 21 [(0, 0, 0)], [(0, 0, 0)])
   \<and> feasible [1] [(0, 0, 0)]"
proof -
  let ?a = "\<lparr>A_obj = [[1, 0, 0]], b_obj = [0], ATb = [(0, 0, 0)], m_proxy = [(0, 0, 0)],
       m0 = [(1, 0, 0)], m_maxima = [1], alpha = 1 / 4, nu = 1, epsilon = 1 / 1000,
       reg_l0 = 0, reg_l1 = 0, reg_l2 = 0, max_iter = 3, min_fb = 0\<rparr>"
  have rows: "\<forall>row\<in>set (A_obj ?a). length row = 3 * length (ATb ?a)" by simp
  have len0: "length (m0 ?a) = length (ATb ?a)" by simp
  have lenM: "length (m_maxima ?a) = length (ATb ?a)" by simp
  have M: "\<forall>i<length (m_maxima ?a). 0 < m_maxima ?a ! i" by simp
  have feas0: "feasible (m_maxima ?a) (m0 ?a)" by (simp add: feasible_iff)
  have psd: "0 \<le> reg_l2 ?a + 1 / (2 * nu ?a)" by simp
  have i0: "MwPGP_iterates ?a 0 = Inr ([(1, 0, 0)], [(2, 0, 0)], [(0, 0, 0)])"
    by (simp add: example_init)
  have i1: "MwPGP_iterates ?a (Suc 0) = Inr ([(1 / 2, 0, 0)], [(1, 0, 0)], [(1, 0, 0)])"
    by (simp add: example_init example_step0)
  have i2: "MwPGP_iterates ?a 2 = Inr ([(0, 0, 0)], [(0, 0, 0)], [(0, 0, 0)])"
    unfolding numeral_2_eq_2 by (simp add: example_init example_step0 example_step1)
  have clr: "\<forall>m<max_iter ?a. \<forall>x' g' p'. MwPGP_iterates ?a m = Inr (x', g', p') \<longrightarrow> clear_of_floor p'"
  proof (intro allI impI)
    fix m x' g' p'
    assume m: "m < max_iter ?a" and it: "MwPGP_iterates ?a m = Inr (x', g', p')"
    from m have "m = 0 \<or> m = Suc 0 \<or> m = 2" by auto
    with it i0 i1 i2 have "p' = [(0, 0, 0)] \<or> p' = [(1, 0, 0)]" by auto
    then show "clear_of_floor p'" by (auto simp: clear_of_floor_def)
  qed
  have run: "MwPGP_algorithm ?a False
     = Inr (replicate 21 0, replicate 21 0, replicate 21 [(0, 0, 0)], [(0, 0, 0)])"
    by (simp add: MwPGP_algorithm_def MwPGP_loop.simps example_eval)
  from MwPGP_feasible_iterates [OF rows len0 lenM M feas0 psd] run clr
  have "feasible (m_maxima ?a) [(0, 0, 0)]" by blast
  then have f: "feasible [1] [(0, 0, 0)]" by simp
  from feas0 have f0: "feasible (m_maxima ?a) [(1, 0, 0)]" by simp
  from f0 i2 run f show ?thesis by blast
qed

subsection \<open>History buffers\<close>

text \<open>
  C7 on the code. Nothing caps \<^verbatim>\<open>print_iter\<close>. \<^verbatim>\<open>MwPGP_algorithm\<close> with \<^verbatim>\<open>max_iter = 42\<close>
  samples at every second iteration, \<open>k = 0, 2, \<dots>, 40\<close>, which fills the 21 slots, and
  once more at \<open>k = 41 = max_iter - 1\<close>: the 22nd write is at index 21. A GPMO solver with
  \<open>K = 5\<close> and \<^verbatim>\<open>nhistory = 3\<close> samples at every iteration, since \<^verbatim>\<open>int(K / nhistory)\<close> is 1:
  the fifth write is at index 4 of buffers with \<^verbatim>\<open>nhistory + 1 = 4\<close> slots.
\<close>

theorem history_slot_overflow:
  "MwPGP_algorithm \<lparr>A_obj = [[1, 0, 0]], b_obj = [0], ATb = [(0, 0, 0)], m_proxy = [(0, 0, 0)],
       m0 = [(1, 0, 0)], m_maxima = [1], alpha = 1 / 4, nu = 1, epsilon = 0,
       reg_l0 = 0, reg_l1 = 0, reg_l2 = 0, max_iter = 42, min_fb = 0\<rparr> True
     = Inl OutOfBounds
   \<and> GPMO_baseline [[1], [1], [1], [1], [1], [1], [1], [1], [1], [1], [1], [1], [1], [1], [1]] [1]
       5 True 3 (- 1) = Inl OutOfBounds"
proof -
  have "MwPGP_algorithm \<lparr>A_obj = [[1, 0, 0]], b_obj = [0], ATb = [(0, 0, 0)], m_proxy = [(0, 0, 0)],
       m0 = [(1, 0, 0)], m_maxima = [1], alpha = 1 / 4, nu = 1, epsilon = 0,
       reg_l0 = 0, reg_l1 = 0, reg_l2 = 0, max_iter = 42, min_fb = 0\<rparr> True
     = Inl OutOfBounds"
    by (simp add: MwPGP_algorithm_def MwPGP_loop.simps example_eval)
  moreover have "GPMO_baseline [[1], [1], [1], [1], [1], [1], [1], [1], [1], [1], [1], [1], [1], [1], [1]] [1]
       5 True 3 (- 1) = Inl OutOfBounds"
    by code_simp
  ultimately show ?thesis by blast
qed

end
